theory Spec2Isabelle
  imports Main "HOL-Library.Word"
begin

section \<open>Python values and exceptions\<close>

text \<open>
  The notebook defines two classes, \<open>FieldElement\<close> (integers modulo the class attribute
  \<open>modulus\<close>) and \<open>ExtendedFieldElement\<close> (four coefficients over the class attribute
  \<open>subclass\<close>, with the tower constant \<open>extension_i\<close>).  Python integers are unbounded,
  so they are \<open>int\<close>; Python's \<open>%\<close> and \<open>//\<close> round towards minus infinity, as
  \<open>mod\<close> and \<open>div\<close> on \<open>int\<close> do.  An exception is a value of type \<open>error\<close>, and a
  method that can raise returns \<open>error + 'a\<close>.
\<close>

datatype error =
    TypeError
  | ValueError
  | AssertionError
  | IndexError
  | OverflowError
  | RecursionError
  | IncompatibleValue

type_synonym byte = "8 word"

text \<open>
  An object of a subclass of \<open>FieldElement\<close>.  A subclass only sets \<open>modulus\<close>, so the
  class of an object is identified by its modulus; \<open>val\<close> is the attribute \<open>value\<close>.
  The modulus of a class is a positive constant (\<open>2**3 - 1\<close> for
  \<open>BabyMersenneElement\<close>); with a zero modulus Python's \<open>%\<close> raises where \<open>mod\<close>
  does not, so every statement below is about a nonzero modulus.
\<close>

datatype FieldElement = FE (modulus: int) (val: int)

text \<open>
  An object of a subclass of \<open>ExtendedFieldElement\<close>: the class attributes
  \<open>subclass\<close> (the base class, named by its modulus: \<open>subclass_modulus\<close>) and
  \<open>extension_i\<close>, and the instance attributes \<open>value\<close> (the list of coefficients,
  \<open>coeffs\<close>) and \<open>modulus\<close> (\<open>emodulus\<close>).
\<close>

datatype ExtendedFieldElement =
  EFE (subclass_modulus: int) (extension_i: int) (coeffs: "FieldElement list") (emodulus: int)

text \<open>
  The values a constructor or an operator can be handed: an \<open>int\<close>, a base-field object,
  an extension-field object, a list, and \<open>None\<close>.  At the top of \<open>_to_list\<close> a value
  of any other type takes the branch of \<open>None\<close>; as an item of a list, \<open>None\<close> is a
  value on which \<open>%\<close> raises \<open>TypeError\<close>.  A value on which \<open>%\<close> returns something
  that is not an \<open>int\<close> (a float) is not among these values, and no statement below
  is about a list with such an item.
\<close>

datatype pyval =
    PInt int
  | PBase FieldElement
  | PExt ExtendedFieldElement
  | PList "pyval list"
  | PNone

text \<open>The operand of a \<open>FieldElement\<close> operator: a plain \<open>int\<close> or an object with \<open>.value\<close>.\<close>

datatype operand = OInt int | OElem FieldElement

definition bind_err :: "error + 'a \<Rightarrow> ('a \<Rightarrow> error + 'b) \<Rightarrow> error + 'b" where
  "bind_err m f = (case m of Inl e \<Rightarrow> Inl e | Inr x \<Rightarrow> f x)"

fun map_err :: "('a \<Rightarrow> error + 'b) \<Rightarrow> 'a list \<Rightarrow> error + 'b list" where
  "map_err f [] = Inr []"
| "map_err f (x # xs) =
     (case f x of
        Inl e \<Rightarrow> Inl e
      | Inr y \<Rightarrow> (case map_err f xs of Inl e \<Rightarrow> Inl e | Inr ys \<Rightarrow> Inr (y # ys)))"

section \<open>Python built-ins\<close>

text \<open>
  The three-argument \<open>pow(b, e, m)\<close> of Python: \<open>b ** e % m\<close> for \<open>e \<ge> 0\<close>; for a
  negative exponent the base is first replaced by its inverse modulo \<open>m\<close>, and
  \<open>ValueError\<close> is raised when the base is not invertible; \<open>ValueError\<close> for \<open>m = 0\<close>;
  \<open>0\<close> for a modulus of absolute value 1.
\<close>

definition invmod :: "int \<Rightarrow> int \<Rightarrow> int option" where
  "invmod b m = find (\<lambda>i. (b * i) mod m = 1) [0 .. \<bar>m\<bar> - 1]"

definition py_pow :: "int \<Rightarrow> int \<Rightarrow> int \<Rightarrow> error + int" where
  "py_pow b e m =
     (if m = 0 then Inl ValueError
      else if 0 \<le> e then Inr (b ^ nat e mod m)
      else if \<bar>m\<bar> = 1 then Inr 0
      else (case invmod b \<bar>m\<bar> of
              None \<Rightarrow> Inl ValueError
            | Some i \<Rightarrow> Inr (i ^ nat (- e) mod m)))"

text \<open>\<open>int.to_bytes(length, 'little')\<close> and \<open>int.from_bytes(bytes, 'little')\<close>.\<close>

primrec le_bytes :: "int \<Rightarrow> nat \<Rightarrow> byte list" where
  "le_bytes v 0 = []"
| "le_bytes v (Suc n) = word_of_int v # le_bytes (v div 256) n"

definition int_to_bytes :: "int \<Rightarrow> nat \<Rightarrow> error + byte list" where
  "int_to_bytes v n =
     (if v < 0 \<or> 256 ^ n \<le> v then Inl OverflowError else Inr (le_bytes v n))"

primrec int_from_bytes :: "byte list \<Rightarrow> int" where
  "int_from_bytes [] = 0"
| "int_from_bytes (b # bs) = uint b + 256 * int_from_bytes bs"

section \<open>FieldElement\<close>

text \<open>
  \<open>__init__\<close>: an object of the same class is replaced by its \<open>value\<close>, then the value
  is reduced with \<open>%\<close>.  \<open>FieldElement_of_int\<close> is the constructor on an \<open>int\<close>, the
  only way the class's own methods call it; \<open>FieldElement_init\<close> is the constructor on
  any value, as \<open>ExtendedFieldElement._to_list\<close> calls it on the items of a list
  (\<open>%\<close> on an object of another class, on a list or on \<open>None\<close> raises \<open>TypeError\<close>).
\<close>

definition FieldElement_of_int :: "int \<Rightarrow> int \<Rightarrow> FieldElement" where
  "FieldElement_of_int p v = FE p (v mod p)"

fun FieldElement_init :: "int \<Rightarrow> pyval \<Rightarrow> error + FieldElement" where
  "FieldElement_init p (PInt v) = Inr (FieldElement_of_int p v)"
| "FieldElement_init p (PBase a) =
     (if modulus a = p then Inr (FieldElement_of_int p (val a)) else Inl TypeError)"
| "FieldElement_init p (PExt x) = Inl TypeError"
| "FieldElement_init p (PList vs) = Inl TypeError"
| "FieldElement_init p PNone = Inl TypeError"

text \<open>\<open>othervalue = other if isinstance(other, int) else other.value\<close>\<close>

fun othervalue :: "operand \<Rightarrow> int" where
  "othervalue (OInt n) = n"
| "othervalue (OElem b) = val b"

definition FieldElement_add :: "FieldElement \<Rightarrow> operand \<Rightarrow> FieldElement" where
  "FieldElement_add self other =
     FieldElement_of_int (modulus self) ((val self + othervalue other) mod modulus self)"

definition FieldElement_sub :: "FieldElement \<Rightarrow> operand \<Rightarrow> FieldElement" where
  "FieldElement_sub self other =
     FieldElement_of_int (modulus self) ((val self - othervalue other) mod modulus self)"

text \<open>\<open>self.value or self.modulus\<close> is the modulus when the value is 0.\<close>

definition FieldElement_neg :: "FieldElement \<Rightarrow> FieldElement" where
  "FieldElement_neg self =
     FieldElement_of_int (modulus self)
       (modulus self - (if val self \<noteq> 0 then val self else modulus self))"

definition FieldElement_mul :: "FieldElement \<Rightarrow> operand \<Rightarrow> FieldElement" where
  "FieldElement_mul self other =
     FieldElement_of_int (modulus self) ((val self * othervalue other) mod modulus self)"

definition FieldElement_pow :: "FieldElement \<Rightarrow> int \<Rightarrow> error + FieldElement" where
  "FieldElement_pow self other =
     bind_err (py_pow (val self) other (modulus self))
       (\<lambda>v. Inr (FieldElement_of_int (modulus self) v))"

definition FieldElement_inv :: "FieldElement \<Rightarrow> error + FieldElement" where
  "FieldElement_inv self =
     (if val self \<noteq> 0
      then bind_err (py_pow (val self) (- 1) (modulus self))
             (\<lambda>v. Inr (FieldElement_of_int (modulus self) v))
      else Inr (FieldElement_of_int (modulus self) 0))"

definition FieldElement_sqrt :: "FieldElement \<Rightarrow> error + FieldElement" where
  "FieldElement_sqrt self =
     (if modulus self mod 4 = 3
      then FieldElement_pow self ((modulus self + 1) div 4)
      else Inl AssertionError)"

definition FieldElement_truediv :: "FieldElement \<Rightarrow> operand \<Rightarrow> error + FieldElement" where
  "FieldElement_truediv self other =
     (let other' = (case other of
                      OInt n \<Rightarrow> FieldElement_of_int (modulus self) n
                    | OElem b \<Rightarrow> b)
      in bind_err (FieldElement_inv other')
           (\<lambda>i. Inr (FieldElement_mul self (OElem i))))"

definition FieldElement_eq :: "FieldElement \<Rightarrow> operand \<Rightarrow> bool" where
  "FieldElement_eq self other = (val self = othervalue other)"

definition FieldElement_to_bytes :: "FieldElement \<Rightarrow> error + byte list" where
  "FieldElement_to_bytes self = int_to_bytes (val self) 4"

definition FieldElement_from_bytes :: "int \<Rightarrow> byte list \<Rightarrow> FieldElement" where
  "FieldElement_from_bytes p bytez = FieldElement_of_int p (int_from_bytes bytez)"

text \<open>\<open>BabyMersenneElement\<close>: \<open>modulus = 2**3 - 1\<close>, with the alias \<open>BB\<close>.\<close>

definition BabyMersenneElement_modulus :: int where
  "BabyMersenneElement_modulus = 2 ^ 3 - 1"

definition BB :: "int \<Rightarrow> FieldElement" where
  "BB v = FieldElement_of_int BabyMersenneElement_modulus v"

section \<open>ExtendedFieldElement\<close>

text \<open>
  \<open>_to_list\<close> dispatches on the type of its argument, in the order of the source: an
  object of the same extension class, an object of the base class, a list (each item goes
  through the base class's constructor, whatever the length of the list), an \<open>int\<close>;
  anything else raises \<open>Exception("Incompatible value: ...")\<close>.  The class of \<open>self\<close>
  is given by the modulus \<open>p\<close> of its \<open>subclass\<close> and by its \<open>extension_i\<close>.
\<close>

fun to_list :: "int \<Rightarrow> int \<Rightarrow> pyval \<Rightarrow> error + FieldElement list" where
  "to_list p ei (PExt x) =
     (if subclass_modulus x = p \<and> extension_i x = ei then Inr (coeffs x)
      else Inl IncompatibleValue)"
| "to_list p ei (PBase a) =
     (if modulus a = p then Inr ([a] @ replicate 3 (FieldElement_of_int p 0))
      else Inl IncompatibleValue)"
| "to_list p ei (PList vs) = map_err (FieldElement_init p) vs"
| "to_list p ei (PInt n) =
     Inr ([FieldElement_of_int p n] @ replicate 3 (FieldElement_of_int p 0))"
| "to_list p ei PNone = Inl IncompatibleValue"

text \<open>\<open>__init__\<close>: \<open>self.value[0]\<close> raises \<open>IndexError\<close> on the empty list.\<close>

definition ExtendedFieldElement_init :: "int \<Rightarrow> int \<Rightarrow> pyval \<Rightarrow> error + ExtendedFieldElement" where
  "ExtendedFieldElement_init p ei v =
     bind_err (to_list p ei v)
       (\<lambda>vs. case vs of
                [] \<Rightarrow> Inl IndexError
              | v0 # _ \<Rightarrow> Inr (EFE p ei vs (modulus v0)))"

text \<open>The binary operators of \<open>FieldElement\<close> with an object on the right.\<close>

abbreviation add_fe :: "FieldElement \<Rightarrow> FieldElement \<Rightarrow> FieldElement" where
  "add_fe a b \<equiv> FieldElement_add a (OElem b)"

abbreviation sub_fe :: "FieldElement \<Rightarrow> FieldElement \<Rightarrow> FieldElement" where
  "sub_fe a b \<equiv> FieldElement_sub a (OElem b)"

abbreviation mul_fe :: "FieldElement \<Rightarrow> FieldElement \<Rightarrow> FieldElement" where
  "mul_fe a b \<equiv> FieldElement_mul a (OElem b)"

text \<open>\<open>isinstance(other, (int, self.subclass))\<close>, giving the scalar as an operand.\<close>

fun scalar_operand :: "int \<Rightarrow> pyval \<Rightarrow> operand option" where
  "scalar_operand p (PInt n) = Some (OInt n)"
| "scalar_operand p (PBase a) = (if modulus a = p then Some (OElem a) else None)"
| "scalar_operand p (PExt x) = None"
| "scalar_operand p (PList vs) = None"
| "scalar_operand p PNone = None"

text \<open>
  \<open>__mul__\<close>: the scalar path multiplies every coefficient; the general path unpacks
  both coefficient lists into four names (\<open>ValueError\<close> when a list has not exactly
  four items) and folds the four partial products with \<open>extension_i\<close>.
\<close>

definition ExtendedFieldElement_mul ::
  "ExtendedFieldElement \<Rightarrow> pyval \<Rightarrow> error + ExtendedFieldElement" where
  "ExtendedFieldElement_mul self other =
     (let p = subclass_modulus self; ei = extension_i self in
      case scalar_operand p other of
        Some s \<Rightarrow>
          ExtendedFieldElement_init p ei
            (PList (map (\<lambda>x. PBase (FieldElement_mul x s)) (coeffs self)))
      | None \<Rightarrow>
          (case coeffs self of
             [m1, m2, m3, m4] \<Rightarrow>
               bind_err (to_list p ei other)
                 (\<lambda>os. case os of
                    [o1, o2, o3, o4] \<Rightarrow>
                      (let o_LL = (sub_fe (mul_fe m1 o1) (mul_fe m2 o2),
                                   add_fe (mul_fe m1 o2) (mul_fe m2 o1));
                           o_LR = (sub_fe (mul_fe m1 o3) (mul_fe m2 o4),
                                   add_fe (mul_fe m1 o4) (mul_fe m2 o3));
                           o_RL = (sub_fe (mul_fe m3 o1) (mul_fe m4 o2),
                                   add_fe (mul_fe m3 o2) (mul_fe m4 o1));
                           o_RR = (sub_fe (mul_fe m3 o3) (mul_fe m4 o4),
                                   add_fe (mul_fe m3 o4) (mul_fe m4 o3));
                           out = [sub_fe (fst o_LL)
                                  (sub_fe (fst o_RR) (FieldElement_mul (snd o_RR) (OInt ei))),
                                sub_fe (snd o_LL)
                                  (add_fe (snd o_RR) (FieldElement_mul (fst o_RR) (OInt ei))),
                                add_fe (fst o_LR) (fst o_RL),
                                add_fe (snd o_LR) (snd o_RL)]
                       in ExtendedFieldElement_init p ei (PList (map PBase out)))
                  | _ \<Rightarrow> Inl ValueError)
           | _ \<Rightarrow> Inl ValueError))"

text \<open>
  \<open>__pow__\<close>: recursive halving.  A negative exponent never reaches a base case
  (\<open>-1 // 2 == -1\<close>), which Python ends with \<open>RecursionError\<close>.
\<close>

function ExtendedFieldElement_pow ::
  "ExtendedFieldElement \<Rightarrow> int \<Rightarrow> error + ExtendedFieldElement" where
  "ExtendedFieldElement_pow self other =
     (if other < 0 then Inl RecursionError
      else if other = 0 then
        ExtendedFieldElement_init (subclass_modulus self) (extension_i self)
          (PList [PInt 1, PInt 0, PInt 0, PInt 0])
      else if other = 1 then Inr self
      else if other = 2 then ExtendedFieldElement_mul self (PExt self)
      else
        bind_err (ExtendedFieldElement_pow self (other mod 2))
          (\<lambda>a. bind_err
                  (bind_err (ExtendedFieldElement_pow self (other div 2))
                     (\<lambda>h. ExtendedFieldElement_pow h 2))
                  (\<lambda>b. ExtendedFieldElement_mul a (PExt b))))"
  by pat_completeness auto
termination
  by (relation "measure (\<lambda>(self, other). nat other)") auto

declare ExtendedFieldElement_pow.simps [simp del]

text \<open>\<open>inv\<close>: the norm-based formula, with the literal factor 2 of the source.\<close>

definition ExtendedFieldElement_inv :: "ExtendedFieldElement \<Rightarrow> error + ExtendedFieldElement" where
  "ExtendedFieldElement_inv self =
     (case coeffs self of
        [x0, x1, x2, x3] \<Rightarrow>
          (let r20 = sub_fe (mul_fe x2 x2) (mul_fe x3 x3);
               r21 = mul_fe (FieldElement_mul x2 (OInt 2)) x3
           in bind_err (FieldElement_pow x0 2) (\<lambda>x0_2.
              bind_err (FieldElement_pow x1 2) (\<lambda>x1_2.
              let denom0 = sub_fe (add_fe (sub_fe x0_2 x1_2) r20) (FieldElement_mul r21 (OInt 2));
                  denom1 = add_fe (add_fe (mul_fe (FieldElement_mul x0 (OInt 2)) x1) r21)
                             (FieldElement_mul r20 (OInt 2))
              in bind_err (FieldElement_pow denom0 2) (\<lambda>denom0_2.
                 bind_err (FieldElement_pow denom1 2) (\<lambda>denom1_2.
                 bind_err (FieldElement_inv (add_fe denom0_2 denom1_2)) (\<lambda>inv_denom_norm.
                 let inv_denom0 = mul_fe denom0 inv_denom_norm;
                     inv_denom1 = mul_fe (FieldElement_neg denom1) inv_denom_norm
                 in ExtendedFieldElement_init (subclass_modulus self) (extension_i self)
                      (PList (map PBase
                         [sub_fe (mul_fe x0 inv_denom0) (mul_fe x1 inv_denom1),
                          add_fe (mul_fe x0 inv_denom1) (mul_fe x1 inv_denom0),
                          add_fe (mul_fe (FieldElement_neg x2) inv_denom0) (mul_fe x3 inv_denom1),
                          sub_fe (mul_fe (FieldElement_neg x2) inv_denom1)
                            (mul_fe x3 inv_denom0)]))))))))
      | _ \<Rightarrow> Inl ValueError)"

text \<open>
  \<open>__eq__\<close>: \<open>self.value == self._to_list(other)\<close>, the equality of two Python lists
  (same length, and \<open>FieldElement.__eq__\<close> on each pair of items).
\<close>

definition ExtendedFieldElement_eq :: "ExtendedFieldElement \<Rightarrow> pyval \<Rightarrow> error + bool" where
  "ExtendedFieldElement_eq self other =
     bind_err (to_list (subclass_modulus self) (extension_i self) other)
       (\<lambda>vs. Inr (list_all2 (\<lambda>a b. FieldElement_eq a (OElem b)) (coeffs self) vs))"

definition ExtendedFieldElement_to_bytes :: "ExtendedFieldElement \<Rightarrow> error + byte list" where
  "ExtendedFieldElement_to_bytes self =
     bind_err (map_err FieldElement_to_bytes (coeffs self)) (\<lambda>bs. Inr (concat bs))"

text \<open>\<open>bytez[i:i+4] for i in range(0, 16, 4)\<close>\<close>

definition ExtendedFieldElement_from_bytes ::
  "int \<Rightarrow> int \<Rightarrow> byte list \<Rightarrow> error + ExtendedFieldElement" where
  "ExtendedFieldElement_from_bytes p ei bytez =
     ExtendedFieldElement_init p ei
       (PList (map (\<lambda>i. PInt (int_from_bytes (take 4 (drop i bytez)))) [0, 4, 8, 12]))"

text \<open>
  \<open>ExtendedBabyMersenneElement\<close>: \<open>subclass = BabyMersenneElement\<close>,
  \<open>extension_i = 4\<close>, with the alias \<open>EBB\<close>.
\<close>

definition EBB :: "pyval \<Rightarrow> error + ExtendedFieldElement" where
  "EBB v = ExtendedFieldElement_init BabyMersenneElement_modulus 4 v"

section \<open>Predicates of the specification\<close>

text \<open>
  The modulus of a prime field is a prime number; the stored representative of an element
  is reduced when it lies in \<open>[0, p)\<close>.
\<close>

definition is_prime :: "int \<Rightarrow> bool" where
  "is_prime p = (1 < p \<and> (\<forall>d \<in> {2 ..< p}. \<not> d dvd p))"

definition reduced :: "FieldElement \<Rightarrow> bool" where
  "reduced a = (0 \<le> val a \<and> val a < modulus a)"

text \<open>
  An element of the quartic extension of class \<open>(p, ei)\<close>: four reduced coefficients of
  the base class.
\<close>

definition well_formed :: "int \<Rightarrow> int \<Rightarrow> ExtendedFieldElement \<Rightarrow> bool" where
  "well_formed p ei x =
     (subclass_modulus x = p \<and> extension_i x = ei \<and> emodulus x = p \<and>
      length (coeffs x) = 4 \<and> list_all (\<lambda>c. modulus c = p \<and> reduced c) (coeffs x))"

definition is_zero :: "ExtendedFieldElement \<Rightarrow> bool" where
  "is_zero x = list_all (\<lambda>c. val c = 0) (coeffs x)"

definition quadratic_residue :: "int \<Rightarrow> int \<Rightarrow> bool" where
  "quadratic_residue p a = (\<exists>x \<in> {0 ..< p}. (x * x) mod p = a)"

section \<open>Evaluating products of EBB on integers\<close>

text \<open>
  The Fermat property of the quartic extension over \<open>p = 7\<close> is checked on each of its
  2400 nonzero elements.  For that, the coefficients of a product are computed on plain
  integers: \<open>add7\<close>, \<open>sub7\<close> and \<open>mul7\<close> are \<open>+\<close>, \<open>-\<close> and \<open>*\<close> of
  \<open>BabyMersenneElement\<close> on values, \<open>mul_quad\<close> is the general path of \<open>__mul__\<close> with
  \<open>extension_i = 4\<close> on four values, and \<open>pow2400_quad\<close> is the chain of products that
  \<open>__pow__\<close> makes for the exponent \<open>2400 = 7 ^ 4 - 1\<close>.  The lemmas \<open>mul_EBB_of\<close> and
  \<open>EBB_pow_2400\<close> below prove that they compute what the methods compute.
\<close>

type_synonym quad = "int \<times> int \<times> int \<times> int"

definition add7 :: "int \<Rightarrow> int \<Rightarrow> int" where "add7 a b = (a + b) mod 7"
definition sub7 :: "int \<Rightarrow> int \<Rightarrow> int" where "sub7 a b = (a - b) mod 7"
definition mul7 :: "int \<Rightarrow> int \<Rightarrow> int" where "mul7 a b = (a * b) mod 7"

fun mul_quad :: "quad \<Rightarrow> quad \<Rightarrow> quad" where
  "mul_quad (m1, m2, m3, m4) (o1, o2, o3, o4) =
     (sub7 (sub7 (mul7 m1 o1) (mul7 m2 o2))
        (sub7 (sub7 (mul7 m3 o3) (mul7 m4 o4)) (mul7 (add7 (mul7 m3 o4) (mul7 m4 o3)) 4)),
      sub7 (add7 (mul7 m1 o2) (mul7 m2 o1))
        (add7 (add7 (mul7 m3 o4) (mul7 m4 o3)) (mul7 (sub7 (mul7 m3 o3) (mul7 m4 o4)) 4)),
      add7 (sub7 (mul7 m1 o3) (mul7 m2 o4)) (sub7 (mul7 m3 o1) (mul7 m4 o2)),
      add7 (add7 (mul7 m1 o4) (mul7 m2 o3)) (add7 (mul7 m3 o2) (mul7 m4 o1)))"

definition sq_quad :: "quad \<Rightarrow> quad" where "sq_quad t = mul_quad t t"

definition EBB_of :: "quad \<Rightarrow> ExtendedFieldElement" where
  "EBB_of t = (case t of (a, b, c, d) \<Rightarrow> EFE 7 4 [FE 7 a, FE 7 b, FE 7 c, FE 7 d] 7)"

definition pow2400_quad :: "quad \<Rightarrow> quad" where
  "pow2400_quad t =
     sq_quad (sq_quad (sq_quad (sq_quad (sq_quad
       (mul_quad t (sq_quad (mul_quad t (sq_quad (sq_quad
          (mul_quad t (sq_quad (sq_quad (sq_quad t)))))))))))))"

definition fermat_row :: "int \<Rightarrow> bool" where
  "fermat_row a =
     list_all (\<lambda>b. list_all (\<lambda>c. list_all (\<lambda>d.
        (a, b, c, d) = (0, 0, 0, 0) \<or> pow2400_quad (a, b, c, d) = (1, 0, 0, 0))
      [0, 1, 2, 3, 4, 5, 6]) [0, 1, 2, 3, 4, 5, 6]) [0, 1, 2, 3, 4, 5, 6]"

section \<open>Number theory for a prime modulus\<close>

lemma is_prime_coprime:
  assumes "is_prime p" and "\<not> p dvd a"
  shows "coprime a p"
proof -
  let ?g = "gcd a p"
  have p: "1 < p" and nd: "\<And>d. 2 \<le> d \<Longrightarrow> d < p \<Longrightarrow> \<not> d dvd p"
    using assms(1) by (auto simp: is_prime_def)
  have g0: "0 \<le> ?g" by simp
  have gp: "?g dvd p" and ga: "?g dvd a" by simp_all
  have "?g \<le> p" using gp p by (simp add: zdvd_imp_le)
  moreover have "?g \<noteq> p"
  proof
    assume "?g = p"
    with ga have "p dvd a" by simp
    with assms(2) show False by simp
  qed
  moreover have "?g \<noteq> 0" using p by simp
  ultimately have "?g = 1 \<or> (2 \<le> ?g \<and> ?g < p)" using g0 by linarith
  then have "?g = 1" using nd gp by blast
  then show ?thesis by (simp add: coprime_iff_gcd_eq_1)
qed

lemma is_prime_not_dvd: "is_prime p \<Longrightarrow> 0 < a \<Longrightarrow> a < p \<Longrightarrow> \<not> p dvd a"
  by (auto simp: is_prime_def dest: zdvd_imp_le)

lemma inverse_exists:
  assumes "is_prime p" and "\<not> p dvd a"
  shows "\<exists>i. 0 \<le> i \<and> i < p \<and> (a * i) mod p = 1"
proof -
  have p: "1 < p" using assms(1) by (simp add: is_prime_def)
  have "gcd a p = 1" using is_prime_coprime [OF assms] by (simp add: coprime_iff_gcd_eq_1)
  then obtain u v where uv: "u * a + v * p = 1" using bezout_int [of a p] by auto
  have "(a * (u mod p)) mod p = (a * u) mod p" by (simp add: mod_mult_right_eq)
  also have "a * u = 1 - v * p" using uv by (simp add: algebra_simps)
  also have "(1 - v * p) mod p = 1 mod p" by (simp add: mod_diff_eq [symmetric])
  also have "\<dots> = 1" using p by simp
  finally have "(a * (u mod p)) mod p = 1" .
  moreover have "0 \<le> u mod p" "u mod p < p" using p by simp_all
  ultimately show ?thesis by blast
qed

lemma inverse_unique:
  assumes "0 \<le> i" "i < p" "0 \<le> c" "c < p" "(a * i) mod p = 1" "(a * c) mod p = 1"
  shows "c = (i::int)"
proof -
  have "c mod p = (c * ((a * i) mod p)) mod p"
    using assms by simp
  also have "\<dots> = (((a * c) mod p) * i) mod p"
    by (simp add: mod_mult_right_eq mod_mult_left_eq mult.assoc mult.left_commute)
  also have "\<dots> = i mod p" using assms by simp
  finally show ?thesis using assms by simp
qed

lemma invmod_prime:
  assumes "is_prime p" and "\<not> p dvd a"
  shows "\<exists>i. invmod a p = Some i \<and> 0 \<le> i \<and> i < p \<and> (a * i) mod p = 1"
proof -
  have p: "1 < p" using assms(1) by (simp add: is_prime_def)
  obtain j where j: "0 \<le> j" "j < p" "(a * j) mod p = 1"
    using inverse_exists [OF assms] by blast
  then have "j \<in> set [0 .. \<bar>p\<bar> - 1]" using p by simp
  with j(3) have "invmod a p \<noteq> None"
    unfolding invmod_def by (auto simp: find_None_iff)
  then obtain i where i: "invmod a p = Some i" by auto
  then have "i \<in> set [0 .. \<bar>p\<bar> - 1] \<and> (a * i) mod p = 1"
    unfolding invmod_def by (auto simp: find_Some_iff)
  then show ?thesis using i p by auto
qed

text \<open>Fermat's little theorem, by the permutation \<open>k \<mapsto> x * k mod p\<close> of \<open>{1..p-1}\<close>.\<close>

lemma fermat_little:
  assumes "is_prime p" and "\<not> p dvd x"
  shows "x ^ nat (p - 1) mod p = 1"
proof -
  have p: "1 < p" using assms(1) by (simp add: is_prime_def)
  have cop: "coprime x p" by (rule is_prime_coprime [OF assms])
  let ?S = "{1 .. p - 1}"
  let ?f = "\<lambda>k. (x * k) mod p"
  have nd: "\<not> p dvd k" if "k \<in> ?S" for k
    using that is_prime_not_dvd [OF assms(1), of k] by simp
  have copk: "coprime p k" if "k \<in> ?S" for k
    using is_prime_coprime [OF assms(1) nd [OF that]] by (simp add: coprime_commute)
  have img: "?f ` ?S \<subseteq> ?S"
  proof
    fix y assume "y \<in> ?f ` ?S"
    then obtain k where k: "k \<in> ?S" "y = (x * k) mod p" by auto
    have "\<not> p dvd x * k"
      using nd [OF k(1)] cop by (simp add: coprime_dvd_mult_right_iff coprime_commute)
    then have "(x * k) mod p \<noteq> 0" by (simp add: dvd_eq_mod_eq_0)
    moreover have "0 \<le> (x * k) mod p" "(x * k) mod p < p" using p by simp_all
    ultimately show "y \<in> ?S" using k(2) by simp
  qed
  have inj: "inj_on ?f ?S"
  proof (rule inj_onI)
    fix k l assume k: "k \<in> ?S" and l: "l \<in> ?S" and e: "(x * k) mod p = (x * l) mod p"
    then have "p dvd x * k - x * l" by (simp add: mod_eq_dvd_iff)
    then have "p dvd x * (k - l)" by (simp add: algebra_simps)
    then have "p dvd k - l" using cop by (simp add: coprime_dvd_mult_right_iff coprime_commute)
    moreover have "\<bar>k - l\<bar> < p" using k l by auto
    ultimately show "k = l" using zdvd_not_zless [of "\<bar>k - l\<bar>" p] by (cases "k = l") auto
  qed
  have eq: "?f ` ?S = ?S" by (rule endo_inj_surj [OF _ img inj]) simp
  have "prod (\<lambda>k. k) ?S mod p = prod (\<lambda>k. k) (?f ` ?S) mod p" by (simp add: eq)
  also have "\<dots> = prod ?f ?S mod p" using inj by (simp add: prod.reindex)
  also have "\<dots> = prod (\<lambda>k. x * k) ?S mod p" by (simp add: mod_prod_eq)
  also have "\<dots> = (x ^ card ?S * prod (\<lambda>k. k) ?S) mod p"
    by (simp add: prod.distrib)
  finally have "(x ^ card ?S * prod (\<lambda>k. k) ?S) mod p = prod (\<lambda>k. k) ?S mod p"
    by simp
  then have "p dvd x ^ card ?S * prod (\<lambda>k. k) ?S - prod (\<lambda>k. k) ?S"
    by (simp only: mod_eq_dvd_iff)
  then have "p dvd (x ^ card ?S - 1) * prod (\<lambda>k. k) ?S" by (simp add: algebra_simps)
  moreover have "coprime p (prod (\<lambda>k. k) ?S)"
    by (rule prod_coprime_right) (use copk in auto)
  ultimately have "p dvd x ^ card ?S - 1" by (simp add: coprime_dvd_mult_left_iff)
  then have "x ^ card ?S mod p = 1 mod p" by (simp add: mod_eq_dvd_iff)
  moreover have "card ?S = nat (p - 1)" by simp
  ultimately show ?thesis using p by simp
qed

lemma is_prime_7: "is_prime 7"
proof -
  have "\<not> d dvd 7" if "2 \<le> d" "d < 7" for d :: int
  proof -
    from that have "d = 2 \<or> d = 3 \<or> d = 4 \<or> d = 5 \<or> d = 6" by arith
    then show ?thesis by auto
  qed
  then show ?thesis by (simp add: is_prime_def)
qed

section \<open>Facts about FieldElement\<close>

lemma reduced_of_int: "0 < p \<Longrightarrow> reduced (FieldElement_of_int p n)"
  by (simp add: reduced_def FieldElement_of_int_def)

lemma py_pow_nonneg: "m \<noteq> 0 \<Longrightarrow> 0 \<le> e \<Longrightarrow> py_pow b e m = Inr (b ^ nat e mod m)"
  by (simp add: py_pow_def)

lemma FieldElement_pow_nonneg:
  "modulus a \<noteq> 0 \<Longrightarrow> 0 \<le> e \<Longrightarrow>
   FieldElement_pow a e = Inr (FE (modulus a) (val a ^ nat e mod modulus a))"
  by (simp add: FieldElement_pow_def py_pow_nonneg bind_err_def FieldElement_of_int_def)

lemma FieldElement_pow_reduced:
  "0 < modulus a \<Longrightarrow> FieldElement_pow a e = Inr r \<Longrightarrow> reduced r"
  by (auto simp: FieldElement_pow_def bind_err_def reduced_of_int split: sum.splits)

lemma FieldElement_inv_reduced:
  "0 < modulus a \<Longrightarrow> FieldElement_inv a = Inr r \<Longrightarrow> reduced r"
  by (auto simp: FieldElement_inv_def bind_err_def reduced_of_int split: sum.splits if_splits)

lemma FieldElement_inv_prime:
  assumes "is_prime p" "modulus a = p" "reduced a" "val a \<noteq> 0"
  shows "\<exists>i. FieldElement_inv a = Inr (FE p i) \<and> 0 \<le> i \<and> i < p \<and> (val a * i) mod p = 1"
proof -
  have p: "1 < p" using assms(1) by (simp add: is_prime_def)
  have "\<not> p dvd val a"
    using assms by (intro is_prime_not_dvd) (auto simp: reduced_def)
  from invmod_prime [OF assms(1) this]
  obtain i where i: "invmod (val a) p = Some i" "0 \<le> i" "i < p" "(val a * i) mod p = 1"
    by blast
  have "py_pow (val a) (- 1) p = Inr i"
    using p i by (simp add: py_pow_def)
  then have "FieldElement_inv a = Inr (FE p i)"
    using assms(2,4) i by (simp add: FieldElement_inv_def bind_err_def FieldElement_of_int_def)
  then show ?thesis using i by blast
qed

lemma FieldElement_inv_zero: "val a = 0 \<Longrightarrow> FieldElement_inv a = Inr (FE (modulus a) 0)"
  by (simp add: FieldElement_inv_def FieldElement_of_int_def)

lemma FieldElement_truediv_reduced:
  "0 < modulus a \<Longrightarrow> FieldElement_truediv a other = Inr r \<Longrightarrow> reduced r"
  by (auto simp: FieldElement_truediv_def bind_err_def Let_def FieldElement_mul_def reduced_of_int
           split: sum.splits)

lemma FieldElement_inv_total:
  assumes "is_prime p" "modulus a = p" "reduced a"
  shows "\<exists>r. FieldElement_inv a = Inr r \<and> modulus r = p \<and> reduced r"
proof (cases "val a = 0")
  case True
  then show ?thesis
    using assms FieldElement_inv_zero [of a] by (auto simp: reduced_def)
next
  case False
  from FieldElement_inv_prime [OF assms False] show ?thesis
    by (auto simp: reduced_def)
qed

lemma sqrt_square_residue:
  assumes pr: "is_prime p" and p4: "p mod 4 = 3" and x: "0 \<le> x" "x < p"
  shows "(((x * x) mod p) ^ nat ((p + 1) div 4) mod p) * (((x * x) mod p) ^ nat ((p + 1) div 4) mod p) mod p
         = (x * x) mod p"
proof -
  have p: "1 < p" using pr by (simp add: is_prime_def)
  define k where "k = nat ((p + 1) div 4)"
  have "4 dvd p + 1" using p4 by presburger
  then have "p + 1 = 4 * ((p + 1) div 4)" by simp
  moreover have "0 \<le> (p + 1) div 4" using p by (auto simp: div_int_pos_iff)
  ultimately have pk: "p + 1 = 4 * int k" unfolding k_def by simp
  have k1: "1 \<le> k" using pk p by linarith
  have e: "nat (p - 1) + 2 = 4 * k" using pk p by linarith
  have "(((x * x) mod p) ^ k mod p) * (((x * x) mod p) ^ k mod p) mod p = ((x * x) ^ k * (x * x) ^ k) mod p"
    by (simp add: mod_simps)
  also have "(x * x) ^ k * (x * x) ^ k = x ^ (4 * k)"
    by (simp add: power_mult_distrib power_add [symmetric] mult_2 [symmetric] power2_eq_square [symmetric] power_mult [symmetric])
  also have "\<dots> = x ^ nat (p - 1) * (x * x)"
    by (simp add: e [symmetric] power_add power2_eq_square)
  also have "(x ^ nat (p - 1) * (x * x)) mod p = (x * x) mod p"
  proof (cases "x = 0")
    case True
    then show ?thesis by simp
  next
    case False
    then have "\<not> p dvd x" using x pr by (intro is_prime_not_dvd) auto
    then have "x ^ nat (p - 1) mod p = 1" by (rule fermat_little [OF pr])
    then have "((x ^ nat (p - 1) mod p) * (x * x)) mod p = (x * x) mod p" by simp
    then show ?thesis by (simp add: mod_simps)
  qed
  finally show ?thesis unfolding k_def .
qed

lemma quadratic_residue_7_2: "quadratic_residue 7 2"
proof -
  have "(3::int) \<in> {0 ..< 7} \<and> (3 * 3) mod 7 = (2::int)" by simp
  then show ?thesis unfolding quadratic_residue_def by blast
qed

section \<open>Facts about ExtendedFieldElement and the byte encoding\<close>

lemma map_err_ints:
  "map_err (FieldElement_init p) (map PInt ns) = Inr (map (FieldElement_of_int p) ns)"
  by (induction ns) simp_all

lemma FieldElement_init_error: "FieldElement_init p v = Inl e \<Longrightarrow> e = TypeError"
  by (cases v) (auto split: if_splits)

lemma map_err_rejected:
  "\<exists>v \<in> set vs. \<exists>e. FieldElement_init p v = Inl e \<Longrightarrow>
   map_err (FieldElement_init p) vs = Inl TypeError"
proof (induction vs)
  case Nil
  then show ?case by simp
next
  case (Cons v vs)
  show ?case
  proof (cases "FieldElement_init p v")
    case (Inl e)
    then show ?thesis using FieldElement_init_error [OF Inl] by simp
  next
    case (Inr y)
    with Cons.prems have "\<exists>v \<in> set vs. \<exists>e. FieldElement_init p v = Inl e" by auto
    from Cons.IH [OF this] Inr show ?thesis by simp
  qed
qed

lemma well_formed_cases:
  assumes "well_formed p ei x"
  obtains a b c d where "x = EFE p ei [FE p a, FE p b, FE p c, FE p d] p"
    "0 \<le> a" "a < p" "0 \<le> b" "b < p" "0 \<le> c" "c < p" "0 \<le> d" "d < p"
proof -
  obtain q e cs m where x: "x = EFE q e cs m" by (cases x)
  with assms have h: "q = p" "e = ei" "m = p" "length cs = 4"
    "list_all (\<lambda>c. modulus c = p \<and> reduced c) cs"
    by (simp_all add: well_formed_def)
  from h(4) obtain c0 c1 c2 c3 where cs: "cs = [c0, c1, c2, c3]"
    by (cases cs; simp; cases "tl cs"; simp; cases "tl (tl cs)"; simp; cases "tl (tl (tl cs))"; simp)
  have fe: "c = FE p (val c) \<and> 0 \<le> val c \<and> val c < p" if "modulus c = p \<and> reduced c" for c
    using that by (cases c) (simp add: reduced_def)
  from h(5) cs have "c0 = FE p (val c0) \<and> 0 \<le> val c0 \<and> val c0 < p"
    "c1 = FE p (val c1) \<and> 0 \<le> val c1 \<and> val c1 < p"
    "c2 = FE p (val c2) \<and> 0 \<le> val c2 \<and> val c2 < p"
    "c3 = FE p (val c3) \<and> 0 \<le> val c3 \<and> val c3 < p"
    by (simp_all add: fe)
  then show thesis using that [of "val c0" "val c1" "val c2" "val c3"] x h cs by metis
qed

lemma length_le_bytes: "length (le_bytes v n) = n"
  by (induction n arbitrary: v) simp_all

lemma int_from_le_bytes:
  "0 \<le> v \<Longrightarrow> v < 256 ^ n \<Longrightarrow> int_from_bytes (le_bytes v n) = v"
proof (induction n arbitrary: v)
  case 0
  then show ?case by simp
next
  case (Suc n)
  have "0 \<le> v div 256" using Suc.prems(1) by simp
  moreover have "v div 256 < 256 ^ n" using Suc.prems by (simp add: div_less_iff_less_mult) 
  ultimately have "int_from_bytes (le_bytes (v div 256) n) = v div 256" by (rule Suc.IH)
  moreover have "uint (word_of_int v :: byte) = v mod 256"
    by (simp add: uint_word_of_int take_bit_eq_mod)
  ultimately show ?case by simp
qed

lemma to_bytes_reduced:
  assumes "0 < p" "p \<le> 2 ^ 32" "0 \<le> v" "v < p"
  shows "FieldElement_to_bytes (FE p v) = Inr (le_bytes v 4)"
    and "int_from_bytes (le_bytes v 4) = v"
    and "FieldElement_from_bytes p (le_bytes v 4) = FE p v"
proof -
  have b: "v < 256 ^ 4" using assms by simp
  show "FieldElement_to_bytes (FE p v) = Inr (le_bytes v 4)"
    using assms(3) b by (simp add: FieldElement_to_bytes_def int_to_bytes_def)
  show d: "int_from_bytes (le_bytes v 4) = v"
    using assms(3) b by (rule int_from_le_bytes)
  show "FieldElement_from_bytes p (le_bytes v 4) = FE p v"
    using assms(3,4) by (simp add: FieldElement_from_bytes_def d FieldElement_of_int_def)
qed

section \<open>Facts about EBB\<close>

lemma add7_table:
  "add7 0 0 = 0"
  "add7 0 1 = 1"
  "add7 0 2 = 2"
  "add7 0 3 = 3"
  "add7 0 4 = 4"
  "add7 0 5 = 5"
  "add7 0 6 = 6"
  "add7 1 0 = 1"
  "add7 1 1 = 2"
  "add7 1 2 = 3"
  "add7 1 3 = 4"
  "add7 1 4 = 5"
  "add7 1 5 = 6"
  "add7 1 6 = 0"
  "add7 2 0 = 2"
  "add7 2 1 = 3"
  "add7 2 2 = 4"
  "add7 2 3 = 5"
  "add7 2 4 = 6"
  "add7 2 5 = 0"
  "add7 2 6 = 1"
  "add7 3 0 = 3"
  "add7 3 1 = 4"
  "add7 3 2 = 5"
  "add7 3 3 = 6"
  "add7 3 4 = 0"
  "add7 3 5 = 1"
  "add7 3 6 = 2"
  "add7 4 0 = 4"
  "add7 4 1 = 5"
  "add7 4 2 = 6"
  "add7 4 3 = 0"
  "add7 4 4 = 1"
  "add7 4 5 = 2"
  "add7 4 6 = 3"
  "add7 5 0 = 5"
  "add7 5 1 = 6"
  "add7 5 2 = 0"
  "add7 5 3 = 1"
  "add7 5 4 = 2"
  "add7 5 5 = 3"
  "add7 5 6 = 4"
  "add7 6 0 = 6"
  "add7 6 1 = 0"
  "add7 6 2 = 1"
  "add7 6 3 = 2"
  "add7 6 4 = 3"
  "add7 6 5 = 4"
  "add7 6 6 = 5"
  by (simp_all add: add7_def)

lemma sub7_table:
  "sub7 0 0 = 0"
  "sub7 0 1 = 6"
  "sub7 0 2 = 5"
  "sub7 0 3 = 4"
  "sub7 0 4 = 3"
  "sub7 0 5 = 2"
  "sub7 0 6 = 1"
  "sub7 1 0 = 1"
  "sub7 1 1 = 0"
  "sub7 1 2 = 6"
  "sub7 1 3 = 5"
  "sub7 1 4 = 4"
  "sub7 1 5 = 3"
  "sub7 1 6 = 2"
  "sub7 2 0 = 2"
  "sub7 2 1 = 1"
  "sub7 2 2 = 0"
  "sub7 2 3 = 6"
  "sub7 2 4 = 5"
  "sub7 2 5 = 4"
  "sub7 2 6 = 3"
  "sub7 3 0 = 3"
  "sub7 3 1 = 2"
  "sub7 3 2 = 1"
  "sub7 3 3 = 0"
  "sub7 3 4 = 6"
  "sub7 3 5 = 5"
  "sub7 3 6 = 4"
  "sub7 4 0 = 4"
  "sub7 4 1 = 3"
  "sub7 4 2 = 2"
  "sub7 4 3 = 1"
  "sub7 4 4 = 0"
  "sub7 4 5 = 6"
  "sub7 4 6 = 5"
  "sub7 5 0 = 5"
  "sub7 5 1 = 4"
  "sub7 5 2 = 3"
  "sub7 5 3 = 2"
  "sub7 5 4 = 1"
  "sub7 5 5 = 0"
  "sub7 5 6 = 6"
  "sub7 6 0 = 6"
  "sub7 6 1 = 5"
  "sub7 6 2 = 4"
  "sub7 6 3 = 3"
  "sub7 6 4 = 2"
  "sub7 6 5 = 1"
  "sub7 6 6 = 0"
  by (simp_all add: sub7_def)

lemma mul7_table:
  "mul7 0 0 = 0"
  "mul7 0 1 = 0"
  "mul7 0 2 = 0"
  "mul7 0 3 = 0"
  "mul7 0 4 = 0"
  "mul7 0 5 = 0"
  "mul7 0 6 = 0"
  "mul7 1 0 = 0"
  "mul7 1 1 = 1"
  "mul7 1 2 = 2"
  "mul7 1 3 = 3"
  "mul7 1 4 = 4"
  "mul7 1 5 = 5"
  "mul7 1 6 = 6"
  "mul7 2 0 = 0"
  "mul7 2 1 = 2"
  "mul7 2 2 = 4"
  "mul7 2 3 = 6"
  "mul7 2 4 = 1"
  "mul7 2 5 = 3"
  "mul7 2 6 = 5"
  "mul7 3 0 = 0"
  "mul7 3 1 = 3"
  "mul7 3 2 = 6"
  "mul7 3 3 = 2"
  "mul7 3 4 = 5"
  "mul7 3 5 = 1"
  "mul7 3 6 = 4"
  "mul7 4 0 = 0"
  "mul7 4 1 = 4"
  "mul7 4 2 = 1"
  "mul7 4 3 = 5"
  "mul7 4 4 = 2"
  "mul7 4 5 = 6"
  "mul7 4 6 = 3"
  "mul7 5 0 = 0"
  "mul7 5 1 = 5"
  "mul7 5 2 = 3"
  "mul7 5 3 = 1"
  "mul7 5 4 = 6"
  "mul7 5 5 = 4"
  "mul7 5 6 = 2"
  "mul7 6 0 = 0"
  "mul7 6 1 = 6"
  "mul7 6 2 = 5"
  "mul7 6 3 = 4"
  "mul7 6 4 = 3"
  "mul7 6 5 = 2"
  "mul7 6 6 = 1"
  by (simp_all add: mul7_def)

lemma fermat_row_0: "fermat_row 0"
  unfolding fermat_row_def
  apply (simp only: list.pred_inject simp_thms)
  apply (simp add: pow2400_quad_def sq_quad_def add7_table sub7_table mul7_table)
  done

lemma fermat_row_1: "fermat_row 1"
  unfolding fermat_row_def
  apply (simp only: list.pred_inject simp_thms)
  apply (simp add: pow2400_quad_def sq_quad_def add7_table sub7_table mul7_table)
  done

lemma fermat_row_2: "fermat_row 2"
  unfolding fermat_row_def
  apply (simp only: list.pred_inject simp_thms)
  apply (simp add: pow2400_quad_def sq_quad_def add7_table sub7_table mul7_table)
  done

lemma fermat_row_3: "fermat_row 3"
  unfolding fermat_row_def
  apply (simp only: list.pred_inject simp_thms)
  apply (simp add: pow2400_quad_def sq_quad_def add7_table sub7_table mul7_table)
  done

lemma fermat_row_4: "fermat_row 4"
  unfolding fermat_row_def
  apply (simp only: list.pred_inject simp_thms)
  apply (simp add: pow2400_quad_def sq_quad_def add7_table sub7_table mul7_table)
  done

lemma fermat_row_5: "fermat_row 5"
  unfolding fermat_row_def
  apply (simp only: list.pred_inject simp_thms)
  apply (simp add: pow2400_quad_def sq_quad_def add7_table sub7_table mul7_table)
  done

lemma fermat_row_6: "fermat_row 6"
  unfolding fermat_row_def
  apply (simp only: list.pred_inject simp_thms)
  apply (simp add: pow2400_quad_def sq_quad_def add7_table sub7_table mul7_table)
  done

lemma FE7_ops:
  "FieldElement_mul (FE 7 a) (OElem (FE 7 b)) = FE 7 (mul7 a b)"
  "FieldElement_mul (FE 7 a) (OInt n) = FE 7 (mul7 a n)"
  "FieldElement_add (FE 7 a) (OElem (FE 7 b)) = FE 7 (add7 a b)"
  "FieldElement_sub (FE 7 a) (OElem (FE 7 b)) = FE 7 (sub7 a b)"
  by (simp_all add: FieldElement_mul_def FieldElement_add_def FieldElement_sub_def
      FieldElement_of_int_def add7_def sub7_def mul7_def)

lemma FE7_of_int:
  "FieldElement_of_int 7 (add7 a b) = FE 7 (add7 a b)"
  "FieldElement_of_int 7 (sub7 a b) = FE 7 (sub7 a b)"
  "FieldElement_of_int 7 (mul7 a b) = FE 7 (mul7 a b)"
  by (simp_all add: FieldElement_of_int_def add7_def sub7_def mul7_def)

lemma mul_EBB_of:
  "ExtendedFieldElement_mul (EBB_of s) (PExt (EBB_of t)) = Inr (EBB_of (mul_quad s t))"
proof -
  obtain m1 m2 m3 m4 where s: "s = (m1, m2, m3, m4)" by (cases s)
  obtain o1 o2 o3 o4 where t: "t = (o1, o2, o3, o4)" by (cases t)
  show ?thesis
    by (simp add: s t EBB_of_def ExtendedFieldElement_mul_def ExtendedFieldElement_init_def
        bind_err_def Let_def FE7_ops FE7_of_int)
qed

lemma mul_quad_one_mod:
  "mul_quad (1, 0, 0, 0) (a mod 7, b mod 7, c mod 7, d mod 7) = (a mod 7, b mod 7, c mod 7, d mod 7)"
  by (simp add: add7_def sub7_def mul7_def)

lemma mul_quad_mod: "\<exists>a b c d. mul_quad s t = (a mod 7, b mod 7, c mod 7, d mod 7)"
proof -
  obtain m1 m2 m3 m4 where s: "s = (m1, m2, m3, m4)" by (cases s)
  obtain o1 o2 o3 o4 where t: "t = (o1, o2, o3, o4)" by (cases t)
  show ?thesis
    unfolding s t mul_quad.simps add7_def sub7_def by (intro exI) (rule refl)
qed

lemma mul_quad_one: "mul_quad (1, 0, 0, 0) (mul_quad s t) = mul_quad s t"
proof -
  obtain a b c d where "mul_quad s t = (a mod 7, b mod 7, c mod 7, d mod 7)"
    using mul_quad_mod by blast
  then show ?thesis by (simp only: mul_quad_one_mod)
qed

lemma EBB_pow_0: "ExtendedFieldElement_pow (EBB_of t) 0 = Inr (EBB_of (1, 0, 0, 0))"
  by (cases t)
     (simp add: EBB_of_def ExtendedFieldElement_pow.simps ExtendedFieldElement_init_def
        bind_err_def FieldElement_of_int_def)

lemma EBB_pow_1: "ExtendedFieldElement_pow x 1 = Inr x"
  by (simp add: ExtendedFieldElement_pow.simps)

lemma EBB_pow_2: "ExtendedFieldElement_pow (EBB_of t) 2 = Inr (EBB_of (sq_quad t))"
  by (simp add: ExtendedFieldElement_pow.simps mul_EBB_of sq_quad_def)

lemma EBB_pow_even:
  assumes "2 < n" and "n mod 2 = 0"
    and "ExtendedFieldElement_pow (EBB_of t) (n div 2) = Inr (EBB_of u)"
  shows "ExtendedFieldElement_pow (EBB_of t) n = Inr (EBB_of (sq_quad u))"
  using assms
  by (subst ExtendedFieldElement_pow.simps)
     (simp add: bind_err_def EBB_pow_0 EBB_pow_2 mul_EBB_of sq_quad_def mul_quad_one)

lemma EBB_pow_odd:
  assumes "2 < n" and "n mod 2 = 1"
    and "ExtendedFieldElement_pow (EBB_of t) (n div 2) = Inr (EBB_of u)"
  shows "ExtendedFieldElement_pow (EBB_of t) n = Inr (EBB_of (mul_quad t (sq_quad u)))"
  using assms
  by (subst ExtendedFieldElement_pow.simps)
     (simp add: bind_err_def EBB_pow_1 EBB_pow_2 mul_EBB_of)

lemma EBB_pow_2400: "ExtendedFieldElement_pow (EBB_of t) 2400 = Inr (EBB_of (pow2400_quad t))"
proof -
  have p4: "ExtendedFieldElement_pow (EBB_of t) 4 = Inr (EBB_of (sq_quad (sq_quad t)))"
    by (rule EBB_pow_even) (simp_all add: EBB_pow_2)
  have p9: "ExtendedFieldElement_pow (EBB_of t) 9
      = Inr (EBB_of (mul_quad t (sq_quad (sq_quad (sq_quad t)))))"
    by (rule EBB_pow_odd) (simp_all add: p4)
  have p18: "ExtendedFieldElement_pow (EBB_of t) 18
      = Inr (EBB_of (sq_quad (mul_quad t (sq_quad (sq_quad (sq_quad t))))))"
    by (rule EBB_pow_even) (simp_all add: p9)
  have p37: "ExtendedFieldElement_pow (EBB_of t) 37
      = Inr (EBB_of (mul_quad t (sq_quad (sq_quad (mul_quad t (sq_quad (sq_quad (sq_quad t))))))))"
    by (rule EBB_pow_odd) (simp_all add: p18)
  define u where "u = mul_quad t (sq_quad (mul_quad t (sq_quad (sq_quad
          (mul_quad t (sq_quad (sq_quad (sq_quad t))))))))"
  have p75: "ExtendedFieldElement_pow (EBB_of t) 75 = Inr (EBB_of u)"
    unfolding u_def by (rule EBB_pow_odd) (simp_all add: p37)
  have p150: "ExtendedFieldElement_pow (EBB_of t) 150 = Inr (EBB_of (sq_quad u))"
    by (rule EBB_pow_even) (simp_all add: p75)
  have p300: "ExtendedFieldElement_pow (EBB_of t) 300 = Inr (EBB_of (sq_quad (sq_quad u)))"
    by (rule EBB_pow_even) (simp_all add: p150)
  have p600: "ExtendedFieldElement_pow (EBB_of t) 600
      = Inr (EBB_of (sq_quad (sq_quad (sq_quad u))))"
    by (rule EBB_pow_even) (simp_all add: p300)
  have p1200: "ExtendedFieldElement_pow (EBB_of t) 1200
      = Inr (EBB_of (sq_quad (sq_quad (sq_quad (sq_quad u)))))"
    by (rule EBB_pow_even) (simp_all add: p600)
  have "ExtendedFieldElement_pow (EBB_of t) 2400
      = Inr (EBB_of (sq_quad (sq_quad (sq_quad (sq_quad (sq_quad u))))))"
    by (rule EBB_pow_even) (simp_all add: p1200)
  then show ?thesis unfolding pow2400_quad_def u_def .
qed

lemma fermat_quad:
  assumes "0 \<le> a" "a < 7" "0 \<le> b" "b < 7" "0 \<le> c" "c < 7" "0 \<le> d" "d < 7"
    and nz: "\<not> (a = 0 \<and> b = 0 \<and> c = 0 \<and> d = 0)"
  shows "pow2400_quad (a, b, c, d) = (1, 0, 0, 0)"
proof -
  have mem: "v \<in> set [0, 1, 2, 3, 4, 5, 6]" if "0 \<le> v" "v < 7" for v :: int
  proof -
    from that have "v = 0 \<or> v = 1 \<or> v = 2 \<or> v = 3 \<or> v = 4 \<or> v = 5 \<or> v = 6" by arith
    then show ?thesis by auto
  qed
  have "a = 0 \<or> a = 1 \<or> a = 2 \<or> a = 3 \<or> a = 4 \<or> a = 5 \<or> a = 6"
    using assms(1,2) by arith
  then have "fermat_row a"
    using fermat_row_0 fermat_row_1 fermat_row_2 fermat_row_3 fermat_row_4 fermat_row_5
      fermat_row_6 by blast
  then have "\<forall>b \<in> set [0, 1, 2, 3, 4, 5, 6]. \<forall>c \<in> set [0, 1, 2, 3, 4, 5, 6].
      \<forall>d \<in> set [0, 1, 2, 3, 4, 5, 6].
        (a, b, c, d) = (0, 0, 0, 0) \<or> pow2400_quad (a, b, c, d) = (1, 0, 0, 0)"
    unfolding fermat_row_def list_all_iff .
  then have "(a, b, c, d) = (0, 0, 0, 0) \<or> pow2400_quad (a, b, c, d) = (1, 0, 0, 0)"
    using mem [OF assms(3,4)] mem [OF assms(5,6)] mem [OF assms(7,8)] by blast
  then show ?thesis using nz by simp
qed

section \<open>The claims\<close>

text \<open>
  C1.  The claim: for every nonzero element \<open>x\<close> of the quartic extension over \<open>p = 7\<close>
  with \<open>extension_i = 4\<close>, \<open>x * x.inv() == (1,0,0,0)\<close>.  The source's \<open>inv\<close> folds
  the square of the right half with the literal factor 2, while \<open>__mul__\<close> folds with
  \<open>extension_i = 4\<close>; at \<open>x = EBB([0,0,1,0])\<close> the product \<open>x * x.inv()\<close> is
  \<open>(6,6,0,0)\<close>, and comparing it with \<open>[1,0,0,0]\<close> gives \<open>False\<close>.
\<close>

theorem C1_inv_failing_input:
  "bind_err (EBB (PList [PInt 0, PInt 0, PInt 1, PInt 0]))
     (\<lambda>x. bind_err (ExtendedFieldElement_inv x) (\<lambda>y. ExtendedFieldElement_mul x (PExt y)))
   = Inr (EFE 7 4 [FE 7 6, FE 7 6, FE 7 0, FE 7 0] 7)
   \<and> bind_err (EBB (PList [PInt 0, PInt 0, PInt 1, PInt 0]))
     (\<lambda>x. bind_err (ExtendedFieldElement_inv x)
        (\<lambda>y. bind_err (ExtendedFieldElement_mul x (PExt y))
          (\<lambda>z. ExtendedFieldElement_eq z (PList [PInt 1, PInt 0, PInt 0, PInt 0]))))
   = Inr False"
  by code_simp

text \<open>
  C2.  For every nonzero element \<open>x\<close> of the quartic extension over \<open>p = 7\<close> with
  \<open>extension_i = 4\<close>, \<open>x ** (7 ** 4 - 1)\<close> is the element \<open>(1,0,0,0)\<close>, which is
  \<open>EBB([1,0,0,0])\<close>, and \<open>==\<close> with it returns \<open>True\<close>; \<open>**\<close> is the recursive
  halving: \<open>(1,0,0,0)\<close> for 0, \<open>x\<close> for 1, \<open>x * x\<close> for 2, and
  \<open>pow(e % 2) * pow(e // 2) ** 2\<close> for a larger \<open>e\<close>.
\<close>

theorem C2_fermat:
  assumes "well_formed 7 4 x" and "\<not> is_zero x"
  shows "ExtendedFieldElement_pow x (7 ^ 4 - 1)
           = Inr (EFE 7 4 [FE 7 1, FE 7 0, FE 7 0, FE 7 0] 7)
       \<and> EBB (PList [PInt 1, PInt 0, PInt 0, PInt 0])
           = Inr (EFE 7 4 [FE 7 1, FE 7 0, FE 7 0, FE 7 0] 7)
       \<and> bind_err (ExtendedFieldElement_pow x (7 ^ 4 - 1))
            (\<lambda>y. ExtendedFieldElement_eq y (PExt (EFE 7 4 [FE 7 1, FE 7 0, FE 7 0, FE 7 0] 7)))
           = Inr True
       \<and> ExtendedFieldElement_pow x 0 = Inr (EFE 7 4 [FE 7 1, FE 7 0, FE 7 0, FE 7 0] 7)
       \<and> ExtendedFieldElement_pow x 1 = Inr x
       \<and> ExtendedFieldElement_pow x 2 = ExtendedFieldElement_mul x (PExt x)
       \<and> (\<forall>e. 2 < e \<longrightarrow>
            ExtendedFieldElement_pow x e
              = bind_err (ExtendedFieldElement_pow x (e mod 2))
                  (\<lambda>a. bind_err
                     (bind_err (ExtendedFieldElement_pow x (e div 2))
                        (\<lambda>h. ExtendedFieldElement_pow h 2))
                     (\<lambda>b. ExtendedFieldElement_mul a (PExt b))))"
proof -
  from assms(1) obtain a b c d where x: "x = EFE 7 4 [FE 7 a, FE 7 b, FE 7 c, FE 7 d] 7"
    and r: "0 \<le> a" "a < 7" "0 \<le> b" "b < 7" "0 \<le> c" "c < 7" "0 \<le> d" "d < 7"
    by (rule well_formed_cases)
  have nz: "\<not> (a = 0 \<and> b = 0 \<and> c = 0 \<and> d = 0)"
    using assms(2) by (simp add: x is_zero_def)
  have xq: "x = EBB_of (a, b, c, d)" by (simp add: x EBB_of_def)
  have one: "EBB_of (1, 0, 0, 0) = EFE 7 4 [FE 7 1, FE 7 0, FE 7 0, FE 7 0] 7"
    by (simp add: EBB_of_def)
  have e: "(7::int) ^ 4 - 1 = 2400" by simp
  have c1: "ExtendedFieldElement_pow x (7 ^ 4 - 1)
           = Inr (EFE 7 4 [FE 7 1, FE 7 0, FE 7 0, FE 7 0] 7)"
    unfolding e xq EBB_pow_2400 fermat_quad [OF r nz] one ..
  have c2: "EBB (PList [PInt 1, PInt 0, PInt 0, PInt 0])
           = Inr (EFE 7 4 [FE 7 1, FE 7 0, FE 7 0, FE 7 0] 7)"
    by (simp add: EBB_def BabyMersenneElement_modulus_def ExtendedFieldElement_init_def
        bind_err_def FieldElement_of_int_def)
  have c3: "bind_err (ExtendedFieldElement_pow x (7 ^ 4 - 1))
            (\<lambda>y. ExtendedFieldElement_eq y (PExt (EFE 7 4 [FE 7 1, FE 7 0, FE 7 0, FE 7 0] 7)))
           = Inr True"
    unfolding c1 by (simp add: bind_err_def ExtendedFieldElement_eq_def FieldElement_eq_def)
  have c4: "ExtendedFieldElement_pow x 0 = Inr (EFE 7 4 [FE 7 1, FE 7 0, FE 7 0, FE 7 0] 7)"
    unfolding xq EBB_pow_0 one ..
  have c5: "ExtendedFieldElement_pow x 1 = Inr x" by (rule EBB_pow_1)
  have c6: "ExtendedFieldElement_pow x 2 = ExtendedFieldElement_mul x (PExt x)"
    by (simp add: ExtendedFieldElement_pow.simps)
  have c7: "\<forall>e. 2 < e \<longrightarrow>
            ExtendedFieldElement_pow x e
              = bind_err (ExtendedFieldElement_pow x (e mod 2))
                  (\<lambda>a. bind_err
                     (bind_err (ExtendedFieldElement_pow x (e div 2))
                        (\<lambda>h. ExtendedFieldElement_pow h 2))
                     (\<lambda>b. ExtendedFieldElement_mul a (PExt b)))"
  proof (intro allI impI)
    fix e :: int assume "2 < e"
    then show "ExtendedFieldElement_pow x e
              = bind_err (ExtendedFieldElement_pow x (e mod 2))
                  (\<lambda>a. bind_err
                     (bind_err (ExtendedFieldElement_pow x (e div 2))
                        (\<lambda>h. ExtendedFieldElement_pow h 2))
                     (\<lambda>b. ExtendedFieldElement_mul a (PExt b)))"
      by (subst ExtendedFieldElement_pow.simps) simp
  qed
  show ?thesis using c1 c2 c3 c4 c5 c6 c7 by (intro conjI)
qed

theorem C2_fermat_witness:
  "bind_err (EBB (PList [PInt 1, PInt 2, PInt 3, PInt 4]))
     (\<lambda>x. ExtendedFieldElement_pow x (7 ^ 4 - 1))
   = EBB (PList [PInt 1, PInt 0, PInt 0, PInt 0])"
proof -
  let ?x = "EFE 7 4 [FE 7 1, FE 7 2, FE 7 3, FE 7 4] 7"
  have h1: "well_formed 7 4 ?x" by (simp add: well_formed_def reduced_def)
  have h2: "\<not> is_zero ?x" by (simp add: is_zero_def)
  have c: "EBB (PList [PInt 1, PInt 2, PInt 3, PInt 4]) = Inr ?x"
    by (simp add: EBB_def BabyMersenneElement_modulus_def ExtendedFieldElement_init_def
        bind_err_def FieldElement_of_int_def)
  note t = C2_fermat [OF h1 h2]
  have "ExtendedFieldElement_pow ?x (7 ^ 4 - 1) = EBB (PList [PInt 1, PInt 0, PInt 0, PInt 0])"
    using t by simp
  then show ?thesis by (simp add: c bind_err_def)
qed

text \<open>
  C3.  With \<open>p = 7\<close> and \<open>extension_i = 4\<close>,
  \<open>EBB([1,2,3,4]) * EBB([5,6,7,8])\<close> is the element \<open>EBB([2,1,3,4])\<close>, with
  coefficients \<open>(2,1,3,4)\<close>, and \<open>==\<close> between the two returns \<open>True\<close>.
\<close>

theorem C3_mul_literal:
  "bind_err (EBB (PList [PInt 1, PInt 2, PInt 3, PInt 4]))
     (\<lambda>a. bind_err (EBB (PList [PInt 5, PInt 6, PInt 7, PInt 8]))
        (\<lambda>b. ExtendedFieldElement_mul a (PExt b)))
   = EBB (PList [PInt 2, PInt 1, PInt 3, PInt 4])
   \<and> EBB (PList [PInt 2, PInt 1, PInt 3, PInt 4])
       = Inr (EFE 7 4 [FE 7 2, FE 7 1, FE 7 3, FE 7 4] 7)
   \<and> bind_err (EBB (PList [PInt 1, PInt 2, PInt 3, PInt 4]))
     (\<lambda>a. bind_err (EBB (PList [PInt 5, PInt 6, PInt 7, PInt 8]))
        (\<lambda>b. bind_err (ExtendedFieldElement_mul a (PExt b))
         (\<lambda>z. bind_err (EBB (PList [PInt 2, PInt 1, PInt 3, PInt 4]))
           (\<lambda>e. ExtendedFieldElement_eq z (PExt e))))) = Inr True"
  by code_simp

text \<open>
  C4.  The claim: constructing an element from a value that is not an integer, not a
  field element of the same modulus and not a length-4 sequence raises an error; so every
  list whose length is not 4 is rejected.  The source checks the type of the value and
  never the length of a list: \<open>EBB([1, 2])\<close> is built, with two coefficients.
\<close>

theorem C4_counterexample:
  "length [PInt 1, PInt 2] \<noteq> 4
   \<and> EBB (PList [PInt 1, PInt 2]) = Inr (EFE 7 4 [FE 7 1, FE 7 2] 7)"
  by code_simp

text \<open>
  C4, as the code has it, for a nonzero modulus.  The constructor raises
  \<open>Exception("Incompatible value")\<close> on a value that is none of: an \<open>int\<close>, an object of
  the base class, an object of the same extension class, a list (here \<open>None\<close>, a
  base-field object of another modulus, an extension object of another class).  A list is
  not checked for its length, and its items are handed to the base class's constructor one
  by one: a list of integers, field elements, lists and \<open>None\<close> raises \<open>TypeError\<close> when
  one of its items is \<open>None\<close>, a list, an extension-field object or a base-field object
  of another modulus; the empty list raises \<open>IndexError\<close>; and a non-empty list of
  integers of any length gives an element with that many coefficients.
\<close>

theorem C4_construction:
  assumes "p \<noteq> 0"
  shows "ExtendedFieldElement_init p ei PNone = Inl IncompatibleValue
   \<and> (modulus a \<noteq> p \<longrightarrow> ExtendedFieldElement_init p ei (PBase a) = Inl IncompatibleValue)
   \<and> (\<not> (subclass_modulus x = p \<and> extension_i x = ei) \<longrightarrow>
        ExtendedFieldElement_init p ei (PExt x) = Inl IncompatibleValue)
   \<and> ((\<exists>v \<in> set vs. v = PNone \<or> (\<exists>l. v = PList l) \<or> (\<exists>y. v = PExt y)
                        \<or> (\<exists>b. v = PBase b \<and> modulus b \<noteq> p)) \<longrightarrow>
        ExtendedFieldElement_init p ei (PList vs) = Inl TypeError)
   \<and> ExtendedFieldElement_init p ei (PList []) = Inl IndexError
   \<and> (ns \<noteq> [] \<longrightarrow>
        ExtendedFieldElement_init p ei (PList (map PInt ns))
          = Inr (EFE p ei (map (FieldElement_of_int p) ns) p)
        \<and> length (map (FieldElement_of_int p) ns) = length ns)"
proof (intro conjI impI)
  show "ExtendedFieldElement_init p ei PNone = Inl IncompatibleValue"
    by (simp add: ExtendedFieldElement_init_def bind_err_def)
  show "ExtendedFieldElement_init p ei (PBase a) = Inl IncompatibleValue" if "modulus a \<noteq> p"
    using that by (simp add: ExtendedFieldElement_init_def bind_err_def)
  show "ExtendedFieldElement_init p ei (PExt x) = Inl IncompatibleValue"
    if "\<not> (subclass_modulus x = p \<and> extension_i x = ei)"
    using that by (auto simp add: ExtendedFieldElement_init_def bind_err_def)
  show "ExtendedFieldElement_init p ei (PList vs) = Inl TypeError"
    if h: "\<exists>v \<in> set vs. v = PNone \<or> (\<exists>l. v = PList l) \<or> (\<exists>y. v = PExt y)
                        \<or> (\<exists>b. v = PBase b \<and> modulus b \<noteq> p)"
  proof -
    from h obtain v where v: "v \<in> set vs"
      and k: "v = PNone \<or> (\<exists>l. v = PList l) \<or> (\<exists>y. v = PExt y)
                \<or> (\<exists>b. v = PBase b \<and> modulus b \<noteq> p)"
      by blast
    from k have "FieldElement_init p v = Inl TypeError" by auto
    with v have "\<exists>v \<in> set vs. \<exists>e. FieldElement_init p v = Inl e" by blast
    from map_err_rejected [OF this] show ?thesis
      by (simp add: ExtendedFieldElement_init_def bind_err_def)
  qed
  show "ExtendedFieldElement_init p ei (PList []) = Inl IndexError"
    by (simp add: ExtendedFieldElement_init_def bind_err_def)
  show "ExtendedFieldElement_init p ei (PList (map PInt ns))
          = Inr (EFE p ei (map (FieldElement_of_int p) ns) p)" if "ns \<noteq> []"
    using that
    by (cases ns) (simp_all add: ExtendedFieldElement_init_def bind_err_def map_err_ints
        FieldElement_of_int_def)
  show "length (map (FieldElement_of_int p) ns) = length ns" if "ns \<noteq> []"
    by simp
qed

theorem C4_construction_witness:
  "EBB PNone = Inl IncompatibleValue
   \<and> EBB (PBase (FE 31 3)) = Inl IncompatibleValue
   \<and> EBB (PExt (EFE 7 2 [FE 7 1, FE 7 0, FE 7 0, FE 7 0] 7)) = Inl IncompatibleValue
   \<and> EBB (PList [PInt 1, PNone, PInt 3, PInt 4]) = Inl TypeError
   \<and> EBB (PList []) = Inl IndexError
   \<and> EBB (PList (map PInt [1, 2, 3])) = Inr (EFE 7 4 (map (FieldElement_of_int 7) [1, 2, 3]) 7)"
proof -
  have p: "(7::int) \<noteq> 0" by simp
  note t = C4_construction [OF p, of 4 "FE 31 3" "EFE 7 2 [FE 7 1, FE 7 0, FE 7 0, FE 7 0] 7"
      "[PInt 1, PNone, PInt 3, PInt 4]" "[1, 2, 3]"]
  have e: "EBB = ExtendedFieldElement_init 7 4"
    by (rule ext) (simp add: EBB_def BabyMersenneElement_modulus_def)
  have h1: "modulus (FE 31 3) \<noteq> 7" by simp
  have h2: "\<not> (subclass_modulus (EFE 7 2 [FE 7 1, FE 7 0, FE 7 0, FE 7 0] 7) = 7
     \<and> extension_i (EFE 7 2 [FE 7 1, FE 7 0, FE 7 0, FE 7 0] 7) = 4)" by simp
  have h3: "\<exists>v \<in> set [PInt 1, PNone, PInt 3, PInt 4]. v = PNone \<or> (\<exists>l. v = PList l)
       \<or> (\<exists>y. v = PExt y) \<or> (\<exists>b. v = PBase b \<and> modulus b \<noteq> 7)"
    by simp
  have h4: "[1, 2, 3] \<noteq> ([] :: int list)" by simp
  show ?thesis unfolding e using t h1 h2 h3 h4 by blast
qed

text \<open>
  C5.  For a positive modulus \<open>p \<equiv> 3 (mod 4)\<close>, \<open>a.sqrt()\<close> returns the element
  with value \<open>a.value ^ ((p + 1) / 4) mod p\<close>; for any modulus that is not
  \<open>\<equiv> 3 (mod 4)\<close> the call raises \<open>AssertionError\<close>; and when \<open>p\<close> is prime,
  \<open>p \<equiv> 3 (mod 4)\<close> and the value of \<open>a\<close> is a quadratic residue in \<open>[0, p)\<close>,
  the result \<open>c\<close> satisfies \<open>c * c == a\<close>.
\<close>

theorem C5_sqrt:
  "(0 < modulus a \<and> modulus a mod 4 = 3 \<longrightarrow>
      FieldElement_sqrt a
        = Inr (FE (modulus a) (val a ^ nat ((modulus a + 1) div 4) mod modulus a)))
   \<and> (modulus a mod 4 \<noteq> 3 \<longrightarrow> FieldElement_sqrt a = Inl AssertionError)
   \<and> (is_prime (modulus a) \<and> modulus a mod 4 = 3 \<and> reduced a
        \<and> quadratic_residue (modulus a) (val a) \<longrightarrow>
        (\<exists>c. FieldElement_sqrt a = Inr c \<and> reduced c
            \<and> FieldElement_mul c (OElem c) = a
            \<and> FieldElement_eq (FieldElement_mul c (OElem c)) (OElem a)))"
proof (intro conjI impI)
  assume m: "0 < modulus a \<and> modulus a mod 4 = 3"
  then have nz: "modulus a \<noteq> 0" by auto
  have "0 \<le> (modulus a + 1) div 4" using m by (auto simp: div_int_pos_iff)
  then show "FieldElement_sqrt a
        = Inr (FE (modulus a) (val a ^ nat ((modulus a + 1) div 4) mod modulus a))"
    using m nz by (simp add: FieldElement_sqrt_def FieldElement_pow_nonneg)
next
  assume "modulus a mod 4 \<noteq> 3"
  then show "FieldElement_sqrt a = Inl AssertionError"
    by (simp add: FieldElement_sqrt_def)
next
  assume h: "is_prime (modulus a) \<and> modulus a mod 4 = 3 \<and> reduced a
        \<and> quadratic_residue (modulus a) (val a)"
  let ?p = "modulus a"
  let ?c = "FE ?p (val a ^ nat ((?p + 1) div 4) mod ?p)"
  have p: "1 < ?p" using h by (simp add: is_prime_def)
  obtain x where x: "0 \<le> x" "x < ?p" "(x * x) mod ?p = val a"
    using h by (auto simp: quadratic_residue_def)
  have "0 \<le> (?p + 1) div 4" using p by (auto simp: div_int_pos_iff)
  then have s: "FieldElement_sqrt a = Inr ?c"
    using h p by (simp add: FieldElement_sqrt_def FieldElement_pow_nonneg)
  have "val ?c * val ?c mod ?p = val a"
    using sqrt_square_residue [of ?p x] h x by simp
  moreover have "val a mod ?p = val a" using h by (simp add: reduced_def)
  ultimately have mc: "FieldElement_mul ?c (OElem ?c) = a"
    by (cases a) (simp add: FieldElement_mul_def FieldElement_of_int_def)
  have rc: "reduced ?c" using p by (simp add: reduced_def)
  show "\<exists>c. FieldElement_sqrt a = Inr c \<and> reduced c
            \<and> FieldElement_mul c (OElem c) = a
            \<and> FieldElement_eq (FieldElement_mul c (OElem c)) (OElem a)"
  proof (intro exI [of _ ?c] conjI)
    show "FieldElement_sqrt a = Inr ?c" by (rule s)
    show "reduced ?c" by (rule rc)
    show "FieldElement_mul ?c (OElem ?c) = a" by (rule mc)
    show "FieldElement_eq (FieldElement_mul ?c (OElem ?c)) (OElem a)"
      by (simp only: mc) (simp add: FieldElement_eq_def)
  qed
qed

theorem C5_sqrt_witness:
  "FieldElement_sqrt (FE 7 2) = Inr (FE 7 4)
   \<and> FieldElement_mul (FE 7 4) (OElem (FE 7 4)) = FE 7 2
   \<and> FieldElement_sqrt (FE 5 4) = Inl AssertionError"
proof -
  have h1: "0 < modulus (FE 7 2) \<and> modulus (FE 7 2) mod 4 = 3" by simp
  have h2: "modulus (FE 5 4) mod 4 \<noteq> 3" by simp
  have h3: "is_prime (modulus (FE 7 2)) \<and> modulus (FE 7 2) mod 4 = 3 \<and> reduced (FE 7 2)
        \<and> quadratic_residue (modulus (FE 7 2)) (val (FE 7 2))"
    using is_prime_7 quadratic_residue_7_2 by (simp add: reduced_def)
  have s: "FieldElement_sqrt (FE 7 2) = Inr (FE 7 4)"
    using mp [OF conjunct1 [OF C5_sqrt [of "FE 7 2"]] h1] by simp
  have "\<exists>c. FieldElement_sqrt (FE 7 2) = Inr c \<and> reduced c
            \<and> FieldElement_mul c (OElem c) = FE 7 2
            \<and> FieldElement_eq (FieldElement_mul c (OElem c)) (OElem (FE 7 2))"
    by (rule mp [OF conjunct2 [OF conjunct2 [OF C5_sqrt [of "FE 7 2"]]] h3])
  then have m: "FieldElement_mul (FE 7 4) (OElem (FE 7 4)) = FE 7 2"
    using s by auto
  have e: "FieldElement_sqrt (FE 5 4) = Inl AssertionError"
    by (rule mp [OF conjunct1 [OF conjunct2 [OF C5_sqrt [of "FE 5 4"]]] h2])
  show ?thesis using s m e by simp
qed

text \<open>
  C6.  For a prime modulus \<open>p\<close> and an element \<open>a\<close> with a nonzero value, \<open>a.inv()\<close>
  returns an element \<open>b\<close> with \<open>a * b == 1\<close>, and its value is the only \<open>c\<close> in
  \<open>[0, p)\<close> with \<open>a.value * c \<equiv> 1 (mod p)\<close>; \<open>inv\<close> of the element 0 returns the
  element 0 and raises nothing.
\<close>

theorem C6_inverse_law:
  assumes "is_prime p" and "modulus a = p" and "reduced a"
  shows "(val a \<noteq> 0 \<longrightarrow>
           (\<exists>b. FieldElement_inv a = Inr b \<and> modulus b = p \<and> reduced b
              \<and> (val a * val b) mod p = 1
              \<and> (\<forall>c. 0 \<le> c \<and> c < p \<and> (val a * c) mod p = 1 \<longrightarrow> c = val b)
              \<and> FieldElement_mul a (OElem b) = FE p 1
              \<and> FieldElement_eq (FieldElement_mul a (OElem b)) (OInt 1)))
       \<and> (val a = 0 \<longrightarrow> FieldElement_inv a = Inr (FE p 0))"
proof (intro conjI impI)
  assume nz: "val a \<noteq> 0"
  have p: "1 < p" using assms(1) by (simp add: is_prime_def)
  from FieldElement_inv_prime [OF assms nz]
  obtain i where i: "FieldElement_inv a = Inr (FE p i)" "0 \<le> i" "i < p" "(val a * i) mod p = 1"
    by blast
  have u: "\<forall>c. 0 \<le> c \<and> c < p \<and> (val a * c) mod p = 1 \<longrightarrow> c = i"
    using inverse_unique [OF i(2,3) _ _ i(4)] by blast
  have m: "FieldElement_mul a (OElem (FE p i)) = FE p 1"
    using assms(2) i(4) p by (simp add: FieldElement_mul_def FieldElement_of_int_def)
  show "\<exists>b. FieldElement_inv a = Inr b \<and> modulus b = p \<and> reduced b
              \<and> (val a * val b) mod p = 1
              \<and> (\<forall>c. 0 \<le> c \<and> c < p \<and> (val a * c) mod p = 1 \<longrightarrow> c = val b)
              \<and> FieldElement_mul a (OElem b) = FE p 1
              \<and> FieldElement_eq (FieldElement_mul a (OElem b)) (OInt 1)"
  proof (intro exI [of _ "FE p i"] conjI)
    show "FieldElement_inv a = Inr (FE p i)" by (rule i(1))
    show "modulus (FE p i) = p" by simp
    show "reduced (FE p i)" using i(2,3) by (simp add: reduced_def)
    show "(val a * val (FE p i)) mod p = 1" using i(4) by simp
    show "\<forall>c. 0 \<le> c \<and> c < p \<and> (val a * c) mod p = 1 \<longrightarrow> c = val (FE p i)"
      using u by simp
    show "FieldElement_mul a (OElem (FE p i)) = FE p 1" by (rule m)
    show "FieldElement_eq (FieldElement_mul a (OElem (FE p i))) (OInt 1)"
      by (simp add: m FieldElement_eq_def)
  qed
next
  assume "val a = 0"
  then show "FieldElement_inv a = Inr (FE p 0)"
    using assms(2) FieldElement_inv_zero [of a] by simp
qed

theorem C6_inverse_law_witness:
  "FieldElement_inv (BB 3) = Inr (BB 5)
   \<and> FieldElement_mul (BB 3) (OElem (BB 5)) = BB 1
   \<and> FieldElement_inv (BB 0) = Inr (BB 0)"
proof -
  have bb: "BB 3 = FE 7 3" "BB 0 = FE 7 0" "BB 5 = FE 7 5" "BB 1 = FE 7 1"
    by (simp_all add: BB_def BabyMersenneElement_modulus_def FieldElement_of_int_def)
  have a3: "modulus (FE 7 3) = 7" "reduced (FE 7 3)" and a0: "modulus (FE 7 0) = 7" "reduced (FE 7 0)"
    by (simp_all add: reduced_def)
  have "\<exists>b. FieldElement_inv (FE 7 3) = Inr b \<and> modulus b = 7 \<and> reduced b
              \<and> (val (FE 7 3) * val b) mod 7 = 1
              \<and> (\<forall>c. 0 \<le> c \<and> c < 7 \<and> (val (FE 7 3) * c) mod 7 = 1 \<longrightarrow> c = val b)
              \<and> FieldElement_mul (FE 7 3) (OElem b) = FE 7 1
              \<and> FieldElement_eq (FieldElement_mul (FE 7 3) (OElem b)) (OInt 1)"
    by (rule mp [OF conjunct1 [OF C6_inverse_law [OF is_prime_7 a3]]]) simp
  then obtain b where b: "FieldElement_inv (FE 7 3) = Inr b"
      and u: "\<forall>c. 0 \<le> c \<and> c < 7 \<and> (val (FE 7 3) * c) mod 7 = 1 \<longrightarrow> c = val b"
      and mb: "modulus b = 7"
      and m: "FieldElement_mul (FE 7 3) (OElem b) = FE 7 1"
    by blast
  have "0 \<le> (5::int) \<and> (5::int) < 7 \<and> (val (FE 7 3) * 5) mod 7 = 1" by simp
  with u have "val b = 5" by metis
  with mb have "b = FE 7 5" by (cases b) simp
  moreover have "FieldElement_inv (FE 7 0) = Inr (FE 7 0)"
    by (rule mp [OF conjunct2 [OF C6_inverse_law [OF is_prime_7 a0]]]) simp
  ultimately show ?thesis using b m by (simp add: bb)
qed

text \<open>
  C7.  For a modulus \<open>0 < p \<le> 2 ^ 32\<close>: \<open>to_bytes\<close> of a reduced element is the four
  little-endian bytes of its value, and \<open>from_bytes\<close> of them is the element again
  (\<open>==\<close> returns \<open>True\<close>); \<open>to_bytes\<close> of an element of the quartic extension is the
  16-byte concatenation of the encodings of its four coefficients in order, and
  \<open>from_bytes\<close> of it is the element again.
\<close>

theorem C7_bytes_round_trip:
  assumes "0 < p" and "p \<le> 2 ^ 32"
  shows "(modulus a = p \<and> reduced a \<longrightarrow>
            (\<exists>bs. FieldElement_to_bytes a = Inr bs \<and> length bs = 4
                \<and> bs = [word_of_int (val a), word_of_int (val a div 256),
                        word_of_int (val a div 256 div 256),
                        word_of_int (val a div 256 div 256 div 256)]
                \<and> int_from_bytes bs = val a
                \<and> FieldElement_from_bytes p bs = a
                \<and> FieldElement_eq (FieldElement_from_bytes p bs) (OElem a)))
       \<and> (well_formed p ei x \<longrightarrow>
            (\<exists>bs b0 b1 b2 b3. ExtendedFieldElement_to_bytes x = Inr bs \<and> length bs = 16
                \<and> map FieldElement_to_bytes (coeffs x) = [Inr b0, Inr b1, Inr b2, Inr b3]
                \<and> bs = b0 @ b1 @ b2 @ b3
                \<and> ExtendedFieldElement_from_bytes p ei bs = Inr x
                \<and> bind_err (ExtendedFieldElement_from_bytes p ei bs)
                     (\<lambda>y. ExtendedFieldElement_eq y (PExt x)) = Inr True))"
proof (intro conjI impI)
  assume h: "modulus a = p \<and> reduced a"
  then have a: "a = FE p (val a)" and v: "0 \<le> val a" "val a < p"
    by (cases a; simp add: reduced_def)+
  note t = to_bytes_reduced [OF assms v]
  show "\<exists>bs. FieldElement_to_bytes a = Inr bs \<and> length bs = 4
                \<and> bs = [word_of_int (val a), word_of_int (val a div 256),
                        word_of_int (val a div 256 div 256),
                        word_of_int (val a div 256 div 256 div 256)]
                \<and> int_from_bytes bs = val a
                \<and> FieldElement_from_bytes p bs = a
                \<and> FieldElement_eq (FieldElement_from_bytes p bs) (OElem a)"
  proof (intro exI [of _ "le_bytes (val a) 4"] conjI)
    show "FieldElement_to_bytes a = Inr (le_bytes (val a) 4)" using t(1) a by simp
    show "length (le_bytes (val a) 4) = 4" by (rule length_le_bytes)
    show "le_bytes (val a) 4 = [word_of_int (val a), word_of_int (val a div 256),
                        word_of_int (val a div 256 div 256),
                        word_of_int (val a div 256 div 256 div 256)]"
      by (simp add: numeral_eq_Suc)
    show "int_from_bytes (le_bytes (val a) 4) = val a" by (rule t(2))
    show f: "FieldElement_from_bytes p (le_bytes (val a) 4) = a" using t(3) a by simp
    show "FieldElement_eq (FieldElement_from_bytes p (le_bytes (val a) 4)) (OElem a)"
      by (simp only: f) (simp add: FieldElement_eq_def)
  qed
next
  assume "well_formed p ei x"
  then obtain a b c d where x: "x = EFE p ei [FE p a, FE p b, FE p c, FE p d] p"
    and r: "0 \<le> a" "a < p" "0 \<le> b" "b < p" "0 \<le> c" "c < p" "0 \<le> d" "d < p"
    by (rule well_formed_cases)
  note ta = to_bytes_reduced [OF assms r(1,2)]
  note tb = to_bytes_reduced [OF assms r(3,4)]
  note tc = to_bytes_reduced [OF assms r(5,6)]
  note td = to_bytes_reduced [OF assms r(7,8)]
  let ?A = "le_bytes a 4" and ?B = "le_bytes b 4" and ?C = "le_bytes c 4" and ?D = "le_bytes d 4"
  let ?bs = "?A @ ?B @ ?C @ ?D"
  have len: "length ?A = 4" "length ?B = 4" "length ?C = 4" "length ?D = 4"
    by (rule length_le_bytes)+
  have tb0: "ExtendedFieldElement_to_bytes x = Inr ?bs"
    by (simp add: x ExtendedFieldElement_to_bytes_def bind_err_def ta(1) tb(1) tc(1) td(1))
  have sl: "take 4 (drop 0 ?bs) = ?A" "take 4 (drop 4 ?bs) = ?B"
    "take 4 (drop 8 ?bs) = ?C" "take 4 (drop 12 ?bs) = ?D"
    using len by simp_all
  have md: "a mod p = a" "b mod p = b" "c mod p = c" "d mod p = d" using r by simp_all
  have fb: "ExtendedFieldElement_from_bytes p ei ?bs = Inr x"
    by (simp only: ExtendedFieldElement_from_bytes_def list.map sl ta(2) tb(2) tc(2) td(2))
       (simp add: x ExtendedFieldElement_init_def bind_err_def FieldElement_of_int_def md)
  have eq: "ExtendedFieldElement_eq x (PExt x) = Inr True"
    by (simp add: x ExtendedFieldElement_eq_def bind_err_def FieldElement_eq_def)
  show "\<exists>bs b0 b1 b2 b3. ExtendedFieldElement_to_bytes x = Inr bs \<and> length bs = 16
                \<and> map FieldElement_to_bytes (coeffs x) = [Inr b0, Inr b1, Inr b2, Inr b3]
                \<and> bs = b0 @ b1 @ b2 @ b3
                \<and> ExtendedFieldElement_from_bytes p ei bs = Inr x
                \<and> bind_err (ExtendedFieldElement_from_bytes p ei bs)
                     (\<lambda>y. ExtendedFieldElement_eq y (PExt x)) = Inr True"
  proof -
    have f1: "ExtendedFieldElement_to_bytes x = Inr ?bs" by (rule tb0)
    have f2: "length ?bs = 16" using len by simp
    have f3: "map FieldElement_to_bytes (coeffs x) = [Inr ?A, Inr ?B, Inr ?C, Inr ?D]"
      by (simp add: x ta(1) tb(1) tc(1) td(1))
    have f4: "bind_err (ExtendedFieldElement_from_bytes p ei ?bs)
                     (\<lambda>y. ExtendedFieldElement_eq y (PExt x)) = Inr True"
      by (simp only: fb) (simp add: bind_err_def eq)
    show ?thesis
      by (rule exI [of _ ?bs], rule exI [of _ ?A], rule exI [of _ ?B], rule exI [of _ ?C],
          rule exI [of _ ?D]) (intro conjI f1 f2 f3 fb f4 refl)
  qed
qed

theorem C7_bytes_round_trip_witness:
  "FieldElement_to_bytes (FE 7 5) = Inr [5, 0, 0, 0]
   \<and> FieldElement_from_bytes 7 [5, 0, 0, 0] = FE 7 5
   \<and> ExtendedFieldElement_to_bytes (EFE 7 4 [FE 7 1, FE 7 2, FE 7 3, FE 7 4] 7)
       = Inr [1, 0, 0, 0, 2, 0, 0, 0, 3, 0, 0, 0, 4, 0, 0, 0]
   \<and> ExtendedFieldElement_from_bytes 7 4 [1, 0, 0, 0, 2, 0, 0, 0, 3, 0, 0, 0, 4, 0, 0, 0]
       = Inr (EFE 7 4 [FE 7 1, FE 7 2, FE 7 3, FE 7 4] 7)"
proof -
  let ?x = "EFE 7 4 [FE 7 1, FE 7 2, FE 7 3, FE 7 4] 7"
  have p: "(0::int) < 7" "(7::int) \<le> 2 ^ 32" by simp_all
  have ha: "modulus (FE 7 5) = 7 \<and> reduced (FE 7 5)" by (simp add: reduced_def)
  have hx: "well_formed 7 4 ?x" by (simp add: well_formed_def reduced_def)
  note t = C7_bytes_round_trip [OF p, of "FE 7 5" 4 ?x]
  have ea: "FieldElement_to_bytes (FE 7 5) = Inr [5, 0, 0, 0]" by code_simp
  have ex: "ExtendedFieldElement_to_bytes ?x
       = Inr [1, 0, 0, 0, 2, 0, 0, 0, 3, 0, 0, 0, 4, 0, 0, 0]" by code_simp
  from t ha obtain bs where "FieldElement_to_bytes (FE 7 5) = Inr bs"
    "FieldElement_from_bytes 7 bs = FE 7 5" by blast
  with ea have fa: "FieldElement_from_bytes 7 [5, 0, 0, 0] = FE 7 5" by simp
  from t hx obtain cs where "ExtendedFieldElement_to_bytes ?x = Inr cs"
    "ExtendedFieldElement_from_bytes 7 4 cs = Inr ?x" by blast
  with ex have fx: "ExtendedFieldElement_from_bytes 7 4
     [1, 0, 0, 0, 2, 0, 0, 0, 3, 0, 0, 0, 4, 0, 0, 0] = Inr ?x" by simp
  show ?thesis using ea fa ex fx by blast
qed

text \<open>
  C8.  For a positive modulus \<open>p\<close>, every operation of \<open>FieldElement\<close> returns an
  element whose value lies in \<open>[0, p)\<close>: the constructor on any integer, \<open>+\<close>,
  \<open>-\<close>, unary \<open>-\<close>, \<open>*\<close> on any operand, \<open>**\<close> (which returns for every
  exponent \<open>\<ge> 0\<close>), \<open>inv\<close> and \<open>/\<close> (which return for a prime modulus and
  reduced operands); and the negation of the element 0 is the element 0, with value 0.
\<close>

theorem C8_reduced_invariant:
  assumes "0 < p" and "modulus a = p"
  shows "reduced (FieldElement_of_int p n)
       \<and> reduced (FieldElement_add a other)
       \<and> reduced (FieldElement_sub a other)
       \<and> reduced (FieldElement_neg a)
       \<and> reduced (FieldElement_mul a other)
       \<and> (\<forall>e. 0 \<le> e \<longrightarrow> (\<exists>r. FieldElement_pow a e = Inr r \<and> reduced r))
       \<and> (\<forall>e r. FieldElement_pow a e = Inr r \<longrightarrow> reduced r)
       \<and> (\<forall>r. FieldElement_inv a = Inr r \<longrightarrow> reduced r)
       \<and> (\<forall>r. FieldElement_truediv a other = Inr r \<longrightarrow> reduced r)
       \<and> (is_prime p \<and> reduced a \<longrightarrow> (\<exists>r. FieldElement_inv a = Inr r \<and> reduced r))
       \<and> (is_prime p \<longrightarrow> (\<exists>r. FieldElement_truediv a (OInt n) = Inr r \<and> reduced r))
       \<and> (is_prime p \<and> modulus b = p \<and> reduced b \<longrightarrow>
            (\<exists>r. FieldElement_truediv a (OElem b) = Inr r \<and> reduced r))
       \<and> FieldElement_neg (FieldElement_of_int p 0) = FieldElement_of_int p 0
       \<and> val (FieldElement_neg (FieldElement_of_int p 0)) = 0"
proof -
  have ma: "0 < modulus a" using assms by simp
  have c1: "reduced (FieldElement_of_int p n)" using assms(1) by (rule reduced_of_int)
  have c2: "reduced (FieldElement_add a other)"
    unfolding FieldElement_add_def using ma by (rule reduced_of_int)
  have c3: "reduced (FieldElement_sub a other)"
    unfolding FieldElement_sub_def using ma by (rule reduced_of_int)
  have c4: "reduced (FieldElement_neg a)"
    unfolding FieldElement_neg_def using ma by (rule reduced_of_int)
  have c5: "reduced (FieldElement_mul a other)"
    unfolding FieldElement_mul_def using ma by (rule reduced_of_int)
  have c7: "\<forall>e r. FieldElement_pow a e = Inr r \<longrightarrow> reduced r"
    using FieldElement_pow_reduced [OF ma] by blast
  have c6: "\<forall>e. 0 \<le> e \<longrightarrow> (\<exists>r. FieldElement_pow a e = Inr r \<and> reduced r)"
  proof (intro allI impI)
    fix e :: int assume "0 \<le> e"
    then have "FieldElement_pow a e = Inr (FE (modulus a) (val a ^ nat e mod modulus a))"
      using ma by (simp add: FieldElement_pow_nonneg)
    with c7 show "\<exists>r. FieldElement_pow a e = Inr r \<and> reduced r" by blast
  qed
  have c8: "\<forall>r. FieldElement_inv a = Inr r \<longrightarrow> reduced r"
    using FieldElement_inv_reduced [OF ma] by blast
  have c9: "\<forall>r. FieldElement_truediv a other = Inr r \<longrightarrow> reduced r"
    using FieldElement_truediv_reduced [OF ma] by blast
  have c10: "is_prime p \<and> reduced a \<longrightarrow> (\<exists>r. FieldElement_inv a = Inr r \<and> reduced r)"
    using FieldElement_inv_total [of p a] assms(2) by blast
  have c11: "is_prime p \<longrightarrow> (\<exists>r. FieldElement_truediv a (OInt n) = Inr r \<and> reduced r)"
  proof
    assume pr: "is_prime p"
    have "modulus (FieldElement_of_int p n) = p" "reduced (FieldElement_of_int p n)"
      using c1 by (simp_all add: FieldElement_of_int_def)
    from FieldElement_inv_total [OF pr this]
    obtain i where "FieldElement_inv (FieldElement_of_int p n) = Inr i" by blast
    then have "FieldElement_truediv a (OInt n) = Inr (FieldElement_mul a (OElem i))"
      using assms(2) by (simp add: FieldElement_truediv_def bind_err_def)
    moreover have "reduced (FieldElement_mul a (OElem i))"
      unfolding FieldElement_mul_def using ma by (rule reduced_of_int)
    ultimately show "\<exists>r. FieldElement_truediv a (OInt n) = Inr r \<and> reduced r" by blast
  qed
  have c12: "is_prime p \<and> modulus b = p \<and> reduced b \<longrightarrow>
            (\<exists>r. FieldElement_truediv a (OElem b) = Inr r \<and> reduced r)"
  proof
    assume h: "is_prime p \<and> modulus b = p \<and> reduced b"
    then obtain i where "FieldElement_inv b = Inr i"
      using FieldElement_inv_total [of p b] by blast
    then have "FieldElement_truediv a (OElem b) = Inr (FieldElement_mul a (OElem i))"
      by (simp add: FieldElement_truediv_def bind_err_def)
    moreover have "reduced (FieldElement_mul a (OElem i))"
      unfolding FieldElement_mul_def using ma by (rule reduced_of_int)
    ultimately show "\<exists>r. FieldElement_truediv a (OElem b) = Inr r \<and> reduced r" by blast
  qed
  have c13: "FieldElement_neg (FieldElement_of_int p 0) = FieldElement_of_int p 0"
    by (simp add: FieldElement_neg_def FieldElement_of_int_def)
  have c14: "val (FieldElement_neg (FieldElement_of_int p 0)) = 0"
    by (simp add: FieldElement_neg_def FieldElement_of_int_def)
  show ?thesis
    using c1 c2 c3 c4 c5 c6 c7 c8 c9 c10 c11 c12 c13 c14 by (intro conjI)
qed

theorem C8_reduced_invariant_witness:
  "reduced (BB 12) \<and> val (BB 12) = 5
   \<and> reduced (FieldElement_add (BB 3) (OElem (BB 5)))
   \<and> reduced (FieldElement_sub (BB 3) (OInt 5))
   \<and> reduced (FieldElement_neg (BB 3))
   \<and> reduced (FieldElement_mul (BB 3) (OInt 12))
   \<and> FieldElement_neg (BB 0) = BB 0 \<and> val (FieldElement_neg (BB 0)) = 0"
proof -
  have h: "(0::int) < 7" "modulus (BB 3) = 7"
    by (simp_all add: BB_def BabyMersenneElement_modulus_def FieldElement_of_int_def)
  have bb: "BB 12 = FieldElement_of_int 7 12" "BB 0 = FieldElement_of_int 7 0"
    by (simp_all add: BB_def BabyMersenneElement_modulus_def)
  have v: "val (BB 12) = 5"
    by (simp add: BB_def BabyMersenneElement_modulus_def FieldElement_of_int_def)
  note t1 = C8_reduced_invariant [OF h, of 12 "OElem (BB 5)"]
  note t2 = C8_reduced_invariant [OF h, of 12 "OInt 5"]
  note t3 = C8_reduced_invariant [OF h, of 12 "OInt 12"]
  have "reduced (FieldElement_of_int 7 12)" using t1 by blast
  then have "reduced (BB 12)" unfolding bb .
  moreover have "reduced (FieldElement_add (BB 3) (OElem (BB 5)))" using t1 by blast
  moreover have "reduced (FieldElement_sub (BB 3) (OInt 5))" using t2 by blast
  moreover have "reduced (FieldElement_neg (BB 3))" using t1 by blast
  moreover have "reduced (FieldElement_mul (BB 3) (OInt 12))" using t3 by blast
  moreover have "FieldElement_neg (FieldElement_of_int 7 0) = FieldElement_of_int 7 0
      \<and> val (FieldElement_neg (FieldElement_of_int 7 0)) = 0"
    using t1 by blast
  then have "FieldElement_neg (BB 0) = BB 0 \<and> val (FieldElement_neg (BB 0)) = 0"
    unfolding bb .
  ultimately show ?thesis using v by blast
qed

text \<open>
  C9.  For an element \<open>x\<close> of the quartic extension and an integer \<open>n\<close>, or an object
  \<open>c\<close> of the base class, the scalar path of \<open>__mul__\<close> returns the same element as the
  general path on \<open>x\<close> and the embedded scalar \<open>(n,0,0,0)\<close>, or \<open>(c,0,0,0)\<close>.
\<close>

theorem C9_scalar_path:
  assumes "well_formed p ei x"
  shows "(\<exists>z. ExtendedFieldElement_mul x (PInt n) = Inr z
            \<and> bind_err (ExtendedFieldElement_init p ei (PInt n))
                 (\<lambda>s. ExtendedFieldElement_mul x (PExt s)) = Inr z
            \<and> well_formed p ei z)
       \<and> (modulus c = p \<longrightarrow>
           (\<exists>z. ExtendedFieldElement_mul x (PBase c) = Inr z
            \<and> bind_err (ExtendedFieldElement_init p ei (PBase c))
                 (\<lambda>s. ExtendedFieldElement_mul x (PExt s)) = Inr z
            \<and> well_formed p ei z))"
proof -
  from assms obtain a b c' d where x: "x = EFE p ei [FE p a, FE p b, FE p c', FE p d] p"
    and r: "0 \<le> a" "a < p"
    by (rule well_formed_cases)
  have p: "0 < p" using r by simp
  show ?thesis
    using p
    by (simp add: x ExtendedFieldElement_mul_def ExtendedFieldElement_init_def bind_err_def
        FieldElement_mul_def FieldElement_add_def FieldElement_sub_def FieldElement_of_int_def
        well_formed_def reduced_def Let_def numeral_3_eq_3 mod_simps)
qed

theorem C9_scalar_path_witness:
  "ExtendedFieldElement_mul (EFE 7 4 [FE 7 1, FE 7 2, FE 7 3, FE 7 4] 7) (PInt 12)
     = Inr (EFE 7 4 [FE 7 5, FE 7 3, FE 7 1, FE 7 6] 7)
   \<and> bind_err (ExtendedFieldElement_init 7 4 (PInt 12))
        (\<lambda>s. ExtendedFieldElement_mul (EFE 7 4 [FE 7 1, FE 7 2, FE 7 3, FE 7 4] 7) (PExt s))
     = Inr (EFE 7 4 [FE 7 5, FE 7 3, FE 7 1, FE 7 6] 7)
   \<and> ExtendedFieldElement_mul (EFE 7 4 [FE 7 1, FE 7 2, FE 7 3, FE 7 4] 7) (PBase (FE 7 5))
     = Inr (EFE 7 4 [FE 7 5, FE 7 3, FE 7 1, FE 7 6] 7)
   \<and> bind_err (ExtendedFieldElement_init 7 4 (PBase (FE 7 5)))
        (\<lambda>s. ExtendedFieldElement_mul (EFE 7 4 [FE 7 1, FE 7 2, FE 7 3, FE 7 4] 7) (PExt s))
     = Inr (EFE 7 4 [FE 7 5, FE 7 3, FE 7 1, FE 7 6] 7)"
proof -
  let ?x = "EFE 7 4 [FE 7 1, FE 7 2, FE 7 3, FE 7 4] 7"
  let ?z = "EFE 7 4 [FE 7 5, FE 7 3, FE 7 1, FE 7 6] 7"
  have hx: "well_formed 7 4 ?x" by (simp add: well_formed_def reduced_def)
  have hc: "modulus (FE 7 5) = 7" by simp
  note t = C9_scalar_path [OF hx, of 12 "FE 7 5"]
  have e1: "ExtendedFieldElement_mul ?x (PInt 12) = Inr ?z" by code_simp
  have e2: "ExtendedFieldElement_mul ?x (PBase (FE 7 5)) = Inr ?z" by code_simp
  from t obtain z where "ExtendedFieldElement_mul ?x (PInt 12) = Inr z"
    "bind_err (ExtendedFieldElement_init 7 4 (PInt 12))
        (\<lambda>s. ExtendedFieldElement_mul ?x (PExt s)) = Inr z" by blast
  with e1 have g1: "bind_err (ExtendedFieldElement_init 7 4 (PInt 12))
        (\<lambda>s. ExtendedFieldElement_mul ?x (PExt s)) = Inr ?z" by simp
  from t hc obtain z' where "ExtendedFieldElement_mul ?x (PBase (FE 7 5)) = Inr z'"
    "bind_err (ExtendedFieldElement_init 7 4 (PBase (FE 7 5)))
        (\<lambda>s. ExtendedFieldElement_mul ?x (PExt s)) = Inr z'" by blast
  with e2 have g2: "bind_err (ExtendedFieldElement_init 7 4 (PBase (FE 7 5)))
        (\<lambda>s. ExtendedFieldElement_mul ?x (PExt s)) = Inr ?z" by simp
  show ?thesis using e1 g1 e2 g2 by blast
qed

text \<open>
  C10.  \<open>a == n\<close> for a plain integer \<open>n\<close> compares the stored value with \<open>n\<close>
  itself: it holds iff \<open>a.value = n\<close>.  So \<open>BB(3) == 10\<close> is false although
  \<open>10 % 7 = 3\<close>, while \<open>BB(3) == BB(10)\<close> is true.
\<close>

theorem C10_eq_int_unreduced:
  "FieldElement_eq a (OInt n) = (val a = n)
   \<and> val (BB 3) = 10 mod BabyMersenneElement_modulus
   \<and> FieldElement_eq (BB 3) (OInt 10) = False
   \<and> FieldElement_eq (BB 3) (OElem (BB 10)) = True"
  by (simp add: FieldElement_eq_def BB_def BabyMersenneElement_modulus_def FieldElement_of_int_def)

end
